theory Spec2Isabelle
  imports Main "HOL-Library.Word" "HOL-Library.Sublist"
begin

section \<open>Platform values used by the stream sink\<close>

text \<open>
  An HRESULT is a signed 32-bit value; \<open>SUCCEEDED\<close> and \<open>FAILED\<close> test its sign.
  The codes are those of the Windows SDK headers winerror.h and mferror.h, which the
  source file includes.
\<close>

type_synonym hresult = "32 word"

definition S_OK :: hresult where
  "S_OK = 0"

definition E_INVALIDARG :: hresult where
  "E_INVALIDARG = 0x80070057"

definition MF_E_INVALIDREQUEST :: hresult where
  "MF_E_INVALIDREQUEST = 0xC00D36B2"

definition MF_E_INVALIDTYPE :: hresult where
  "MF_E_INVALIDTYPE = 0xC00D36B4"

definition MF_E_NOT_INITIALIZED :: hresult where
  "MF_E_NOT_INITIALIZED = 0xC00D36B6"

definition MF_E_ATTRIBUTENOTFOUND :: hresult where
  "MF_E_ATTRIBUTENOTFOUND = 0xC00D36E6"

definition MF_E_SHUTDOWN :: hresult where
  "MF_E_SHUTDOWN = 0xC00D3E85"

definition SUCCEEDED :: "hresult \<Rightarrow> bool" where
  "SUCCEEDED hr = (0 \<le> sint hr)"

definition FAILED :: "hresult \<Rightarrow> bool" where
  "FAILED hr = (sint hr < 0)"

type_synonym guid = "128 word"

definition GUID_NULL :: guid where
  "GUID_NULL = 0"

definition MFMediaType_Video :: guid where
  "MFMediaType_Video = 0x7364697600000010800000AA00389B71"

type_synonym MFTIME = "64 word"

definition PRESENTATION_CURRENT_POSITION :: MFTIME where
  "PRESENTATION_CURRENT_POSITION = 0x7fffffffffffffff"

section \<open>Data model of VideoCaptureStreamSinkWinRT\<close>

text \<open>
  Modelled from the spec: the header video\_capture\_sink\_winrt.h, which declares the
  enumerations \<open>State\<close> and \<open>StreamOperation\<close>, is not among the sources. The
  enumerators and their order are those of section 3 of the specification and of the
  row and column comments of \<open>ValidStateMatrix\<close> in the source.
\<close>

datatype State = State_TypeNotSet | State_Ready | State_Started | State_Paused | State_Stopped

datatype StreamOperation =
  OpSetMediaType | OpStart | OpRestart | OpPause | OpStop | OpProcessSample

text \<open>The ordinal of an enumerator, used to index the matrix and to compare states.\<close>

fun state_index :: "State \<Rightarrow> nat" where
  "state_index State_TypeNotSet = 0"
| "state_index State_Ready = 1"
| "state_index State_Started = 2"
| "state_index State_Paused = 3"
| "state_index State_Stopped = 4"

fun op_index :: "StreamOperation \<Rightarrow> nat" where
  "op_index OpSetMediaType = 0"
| "op_index OpStart = 1"
| "op_index OpRestart = 2"
| "op_index OpPause = 3"
| "op_index OpStop = 4"
| "op_index OpProcessSample = 5"

text \<open>
  A sample is an IMFSample: an identity and the number of media buffers it holds.
  \<open>GetBufferByIndex\<close> fails when the index is not below that number.
\<close>

record sample =
  sample_id :: nat
  buffer_count :: nat

definition GetBufferByIndex :: "sample \<Rightarrow> nat \<Rightarrow> hresult" where
  "GetBufferByIndex smp i = (if i < buffer_count smp then S_OK else E_INVALIDARG)"

text \<open>
  A media type is an attribute store. The stream sink reads two GUID attributes of it;
  either may be absent, and then \<open>GetGUID\<close> fails. The frame size stands for the
  remaining attributes, which the sink copies and never inspects.
\<close>

record media_type =
  major_type :: "guid option"
  subtype :: "guid option"
  frame_size :: "nat \<times> nat"

datatype attr_key = MF_MT_MAJOR_TYPE | MF_MT_SUBTYPE

fun GetGUID :: "media_type \<Rightarrow> attr_key \<Rightarrow> hresult + guid" where
  "GetGUID mt MF_MT_MAJOR_TYPE =
     (case major_type mt of None \<Rightarrow> Inl MF_E_ATTRIBUTENOTFOUND | Some g \<Rightarrow> Inr g)"
| "GetGUID mt MF_MT_SUBTYPE =
     (case subtype mt of None \<Rightarrow> Inl MF_E_ATTRIBUTENOTFOUND | Some g \<Rightarrow> Inr g)"

text \<open>
  The sample queue holds IUnknown pointers: samples pushed by \<open>ProcessSample\<close> and
  media types pushed by \<open>ProcessFormatChange\<close>.
\<close>

datatype queue_item = SampleItem sample | MediaTypeItem media_type

datatype MediaEventType =
  MEStreamSinkStarted | MEStreamSinkStopped | MEStreamSinkPaused
  | MEStreamSinkRequestSample | MEError

datatype event = Event MediaEventType hresult

text \<open>
  The fields of the class that the operations read or write. Three lists record what
  the sink hands to its collaborators, oldest first: \<open>workQueue\<close> the operations put
  on the serial work queue and not yet run, \<open>events\<close> the events queued on the event
  queue helper, \<open>delivered\<close> the samples passed to the callback's \<open>OnSample\<close>.
\<close>

record sink =
  state :: State
  isShutdown :: bool
  fGetStartTimeFromSample :: bool
  startTime :: MFTIME
  spCurrentType :: "media_type option"
  guiCurrentSubtype :: guid
  sampleQueue :: "queue_item list"
  workQueue :: "StreamOperation list"
  events :: "event list"
  delivered :: "sample list"

text \<open>
  What the build and the platform decide: whether \<open>assert\<close> is compiled in, and the
  results that \<open>MFPutWorkItem2\<close> and the event queue's \<open>QueueEventParamVar\<close> return.
  A call that succeeds appends to the list that stands for the collaborator; a call that
  fails leaves it as it was. Allocation (\<open>new\<close>, \<open>MFCreateMediaType\<close>,
  \<open>CopyAllItems\<close>) is taken to succeed, and the callback's \<open>OnSample\<close> not to throw.
\<close>

record platform =
  assertions :: bool
  MFPutWorkItem2_result :: hresult
  QueueEventParamVar_result :: hresult

section \<open>The state machine\<close>

definition ValidStateMatrix :: "bool list list" where
  "ValidStateMatrix =
     [[True, False, False, False, False, False],
      [True, True, False, True, True, False],
      [True, True, False, True, True, True],
      [True, True, True, True, True, True],
      [True, True, False, False, True, False]]"

text \<open>
  \<open>ValidateOperation\<close> begins with \<open>assert(!_isShutdown)\<close>: where assertions are
  compiled in and the sink is shut down the program aborts, which is the result
  \<open>None\<close>.
\<close>

definition ValidateOperation :: "platform \<Rightarrow> sink \<Rightarrow> StreamOperation \<Rightarrow> hresult option" where
  "ValidateOperation p s op =
     (if assertions p \<and> isShutdown s then None
      else if ValidStateMatrix ! state_index (state s) ! op_index op then Some S_OK
      else if state s = State_TypeNotSet then Some MF_E_NOT_INITIALIZED
      else Some MF_E_INVALIDREQUEST)"

text \<open>The table of section 4.1 of the specification, row by row as it is printed.\<close>

fun spec_table :: "State \<Rightarrow> StreamOperation \<Rightarrow> bool" where
  "spec_table State_TypeNotSet op = (op = OpSetMediaType)"
| "spec_table State_Ready op = (op \<in> {OpSetMediaType, OpStart, OpPause, OpStop})"
| "spec_table State_Started op =
     (op \<in> {OpSetMediaType, OpStart, OpPause, OpStop, OpProcessSample})"
| "spec_table State_Paused op = True"
| "spec_table State_Stopped op = (op \<in> {OpSetMediaType, OpStart, OpStop})"

section \<open>Exceptions, events and the work queue\<close>

text \<open>
  A function that can throw returns \<open>Inl hr\<close> for a Platform::Exception carrying
  \<open>hr\<close>, together with the sink as the throw left it.
\<close>

definition ThrowIfError :: "hresult \<Rightarrow> hresult + unit" where
  "ThrowIfError hr = (if FAILED hr then Inl hr else Inr ())"

definition QueueEvent :: "platform \<Rightarrow> MediaEventType \<Rightarrow> hresult \<Rightarrow> sink \<Rightarrow> hresult \<times> sink" where
  "QueueEvent p met hrStatus s =
     (if isShutdown s then (MF_E_SHUTDOWN, s)
      else if SUCCEEDED (QueueEventParamVar_result p)
        then (QueueEventParamVar_result p, s\<lparr>events := events s @ [Event met hrStatus]\<rparr>)
      else (QueueEventParamVar_result p, s))"

definition QueueAsyncOperation :: "platform \<Rightarrow> StreamOperation \<Rightarrow> sink \<Rightarrow> hresult \<times> sink" where
  "QueueAsyncOperation p op s =
     (if SUCCEEDED (MFPutWorkItem2_result p)
        then (MFPutWorkItem2_result p, s\<lparr>workQueue := workQueue s @ [op]\<rparr>)
      else (MFPutWorkItem2_result p, s))"

definition HandleError :: "platform \<Rightarrow> hresult \<Rightarrow> sink \<Rightarrow> sink" where
  "HandleError p hr s = (if \<not> isShutdown s then snd (QueueEvent p MEError hr s) else s)"

section \<open>Draining the sample queue\<close>

text \<open>
  The loop of \<open>ProcessSamplesFromQueue\<close>, entered with an item already popped. A
  sample whose first buffer cannot be fetched leaves the loop by \<open>break\<close>, with
  \<open>fNeedMoreSamples\<close> still false. A sample is passed to \<open>OnSample\<close> whatever
  \<open>fFlush\<close> is; \<open>fFlush\<close> only decides \<open>fProcessingSample\<close>. A queued media type
  is no IMFSample and is skipped.
\<close>

function ProcessSamplesFromQueue_loop ::
  "platform \<Rightarrow> bool \<Rightarrow> queue_item \<Rightarrow> sink \<Rightarrow> (hresult + bool) \<times> sink" where
  "ProcessSamplesFromQueue_loop p fFlush spunkSample s =
     (case (case spunkSample of
              SampleItem spSample \<Rightarrow>
                if FAILED (GetBufferByIndex spSample 0) then None
                else Some (\<not> fFlush, s\<lparr>delivered := delivered s @ [spSample]\<rparr>)
            | MediaTypeItem mt \<Rightarrow> Some (False, s)) of
        None \<Rightarrow> (Inr False, s)
      | Some (fProcessingSample, s1) \<Rightarrow>
          (case (if state s1 = State_Started \<and> fProcessingSample \<and> \<not> isShutdown s1
                 then QueueEvent p MEStreamSinkRequestSample S_OK s1
                 else (S_OK, s1)) of
             (hr, s2) \<Rightarrow>
               if FAILED hr then (Inl hr, s2)
               else (case sampleQueue s2 of
                       [] \<Rightarrow> (Inr True, s2)
                     | x # rest \<Rightarrow>
                         ProcessSamplesFromQueue_loop p fFlush x (s2\<lparr>sampleQueue := rest\<rparr>))))"
  by pat_completeness auto
termination
  by (relation "measure (\<lambda>(p, fFlush, x, s). length (sampleQueue s))")
    (auto simp: QueueEvent_def split: queue_item.splits if_splits)

declare ProcessSamplesFromQueue_loop.simps [simp del]

definition ProcessSamplesFromQueue :: "platform \<Rightarrow> bool \<Rightarrow> sink \<Rightarrow> (hresult + bool) \<times> sink" where
  "ProcessSamplesFromQueue p fFlush s =
     (case sampleQueue s of
        [] \<Rightarrow> (Inr True, s)
      | x # rest \<Rightarrow> ProcessSamplesFromQueue_loop p fFlush x (s\<lparr>sampleQueue := rest\<rparr>))"

definition DropSamplesFromQueue :: "platform \<Rightarrow> sink \<Rightarrow> (hresult + bool) \<times> sink" where
  "DropSamplesFromQueue p s =
     (case ProcessSamplesFromQueue p True s of
        (Inl e, s1) \<Rightarrow> (Inl e, s1)
      | (Inr b, s1) \<Rightarrow> (Inr True, s1))"

definition SendSampleFromQueue :: "platform \<Rightarrow> sink \<Rightarrow> (hresult + bool) \<times> sink" where
  "SendSampleFromQueue p s = ProcessSamplesFromQueue p False s"

definition DispatchProcessSample :: "platform \<Rightarrow> StreamOperation \<Rightarrow> sink \<Rightarrow> (hresult + unit) \<times> sink" where
  "DispatchProcessSample p m_op s =
     (case SendSampleFromQueue p s of
        (Inl e, s1) \<Rightarrow> (Inl e, s1)
      | (Inr fRequestMoreSamples, s1) \<Rightarrow>
          if fRequestMoreSamples \<and> \<not> isShutdown s1 then
            (if m_op = OpProcessSample
             then (case QueueEvent p MEStreamSinkRequestSample S_OK s1 of
                     (hr, s2) \<Rightarrow> (ThrowIfError hr, s2))
             else (Inr (), s1))
          else (Inr (), s1))"

section \<open>The work item callback\<close>

text \<open>
  The body of the \<open>try\<close> block of \<open>OnDispatchWorkItem\<close>, for the operation the work
  item carries; \<open>OpStart\<close> and \<open>OpRestart\<close> share one case of the \<open>switch\<close>. Reading
  the operation out of the work item is taken to succeed.
\<close>

fun OnDispatchWorkItem_body :: "platform \<Rightarrow> StreamOperation \<Rightarrow> sink \<Rightarrow> (hresult + unit) \<times> sink" where
  "OnDispatchWorkItem_body p OpStart s =
     (case QueueEvent p MEStreamSinkStarted S_OK s of
        (hr, s1) \<Rightarrow>
          if FAILED hr then (Inl hr, s1)
          else (case DropSamplesFromQueue p s1 of
                  (Inl e, s2) \<Rightarrow> (Inl e, s2)
                | (Inr fRequestMoreSamples, s2) \<Rightarrow>
                    if fRequestMoreSamples \<and> \<not> isShutdown s2
                    then (case QueueEvent p MEStreamSinkRequestSample S_OK s2 of
                            (hr2, s3) \<Rightarrow> (ThrowIfError hr2, s3))
                    else (Inr (), s2)))"
| "OnDispatchWorkItem_body p OpRestart s =
     (case QueueEvent p MEStreamSinkStarted S_OK s of
        (hr, s1) \<Rightarrow>
          if FAILED hr then (Inl hr, s1)
          else (case DropSamplesFromQueue p s1 of
                  (Inl e, s2) \<Rightarrow> (Inl e, s2)
                | (Inr fRequestMoreSamples, s2) \<Rightarrow>
                    if fRequestMoreSamples \<and> \<not> isShutdown s2
                    then (case QueueEvent p MEStreamSinkRequestSample S_OK s2 of
                            (hr2, s3) \<Rightarrow> (ThrowIfError hr2, s3))
                    else (Inr (), s2)))"
| "OnDispatchWorkItem_body p OpStop s =
     (case DropSamplesFromQueue p s of
        (Inl e, s1) \<Rightarrow> (Inl e, s1)
      | (Inr b, s1) \<Rightarrow>
          (case QueueEvent p MEStreamSinkStopped S_OK s1 of (hr, s2) \<Rightarrow> (ThrowIfError hr, s2)))"
| "OnDispatchWorkItem_body p OpPause s =
     (case QueueEvent p MEStreamSinkPaused S_OK s of (hr, s1) \<Rightarrow> (ThrowIfError hr, s1))"
| "OnDispatchWorkItem_body p OpProcessSample s = DispatchProcessSample p OpProcessSample s"
| "OnDispatchWorkItem_body p OpSetMediaType s = DispatchProcessSample p OpSetMediaType s"

text \<open>The \<open>catch\<close> clause hands the error to \<open>HandleError\<close>; the callback returns \<open>S_OK\<close>.\<close>

definition OnDispatchWorkItem :: "platform \<Rightarrow> StreamOperation \<Rightarrow> sink \<Rightarrow> hresult \<times> sink" where
  "OnDispatchWorkItem p op s =
     (case OnDispatchWorkItem_body p op s of
        (Inl e, s1) \<Rightarrow> (S_OK, HandleError p e s1)
      | (Inr u, s1) \<Rightarrow> (S_OK, s1))"

text \<open>
  The serial work queue runs the posted work items one at a time, in the order they
  were put (section 4.3 of the specification): one step takes the oldest pending item
  and calls \<open>OnDispatchWorkItem\<close> with it.
\<close>

definition work_queue_step :: "platform \<Rightarrow> sink \<Rightarrow> sink" where
  "work_queue_step p s =
     (case workQueue s of
        [] \<Rightarrow> s
      | op # rest \<Rightarrow> snd (OnDispatchWorkItem p op (s\<lparr>workQueue := rest\<rparr>)))"

section \<open>Public operations\<close>

definition ProcessSample :: "platform \<Rightarrow> sample option \<Rightarrow> sink \<Rightarrow> (hresult \<times> sink) option" where
  "ProcessSample p pSample s =
     (case pSample of
        None \<Rightarrow> Some (E_INVALIDARG, s)
      | Some smp \<Rightarrow>
          if isShutdown s then Some (MF_E_SHUTDOWN, s)
          else (case ValidateOperation p s OpProcessSample of
                  None \<Rightarrow> None
                | Some hr \<Rightarrow>
                    if SUCCEEDED hr then
                      (let s1 = s\<lparr>sampleQueue := sampleQueue s @ [SampleItem smp]\<rparr>
                       in if state s1 \<noteq> State_Paused
                          then Some (QueueAsyncOperation p OpProcessSample s1)
                          else Some (hr, s1))
                    else Some (hr, s)))"

definition Flush :: "platform \<Rightarrow> sink \<Rightarrow> hresult \<times> sink" where
  "Flush p s =
     (if isShutdown s then (MF_E_SHUTDOWN, s)
      else (case DropSamplesFromQueue p s of
              (Inl e, s1) \<Rightarrow> (e, s1)
            | (Inr b, s1) \<Rightarrow> (S_OK, s1)))"

definition IsMediaTypeSupported :: "media_type option \<Rightarrow> sink \<Rightarrow> hresult" where
  "IsMediaTypeSupported pMediaType s =
     (case pMediaType of
        None \<Rightarrow> E_INVALIDARG
      | Some mt \<Rightarrow>
          if isShutdown s then MF_E_SHUTDOWN
          else (case GetGUID mt MF_MT_MAJOR_TYPE of
                  Inl e \<Rightarrow> e
                | Inr majorType \<Rightarrow>
                    if majorType \<noteq> MFMediaType_Video then MF_E_INVALIDTYPE
                    else if spCurrentType s \<noteq> None then
                      (case GetGUID mt MF_MT_SUBTYPE of
                         Inl e \<Rightarrow> MF_E_INVALIDTYPE
                       | Inr guiNewSubtype \<Rightarrow>
                           if guiNewSubtype \<noteq> guiCurrentSubtype s then MF_E_INVALIDTYPE
                           else S_OK)
                    else S_OK))"

definition ProcessFormatChange :: "platform \<Rightarrow> media_type \<Rightarrow> sink \<Rightarrow> (hresult + unit) \<times> sink" where
  "ProcessFormatChange p mt s =
     (case QueueAsyncOperation p OpSetMediaType
             (s\<lparr>sampleQueue := sampleQueue s @ [MediaTypeItem mt]\<rparr>) of
        (hr, s1) \<Rightarrow> (ThrowIfError hr, s1))"

definition SetCurrentMediaType :: "platform \<Rightarrow> media_type option \<Rightarrow> sink \<Rightarrow> (hresult \<times> sink) option" where
  "SetCurrentMediaType p pMediaType s =
     (case pMediaType of
        None \<Rightarrow> Some (E_INVALIDARG, s)
      | Some mt \<Rightarrow>
          if isShutdown s then Some (MF_E_SHUTDOWN, s)
          else (case ValidateOperation p s OpSetMediaType of
                  None \<Rightarrow> None
                | Some hrv \<Rightarrow>
                    if FAILED hrv then Some (hrv, s)
                    else if state_index State_Ready \<le> state_index (state s)
                            \<and> FAILED (IsMediaTypeSupported (Some mt) s)
                      then Some (IsMediaTypeSupported (Some mt) s, s)
                    else (case GetGUID mt MF_MT_SUBTYPE of
                            Inl e \<Rightarrow> Some (e, s\<lparr>spCurrentType := Some mt\<rparr>)
                          | Inr g \<Rightarrow>
                              (let s2 = s\<lparr>spCurrentType := Some mt, guiCurrentSubtype := g\<rparr>
                               in if state_index (state s2) < state_index State_Ready
                                    then Some (S_OK, s2\<lparr>state := State_Ready\<rparr>)
                                  else if state_index State_Ready < state_index (state s2)
                                    then (case ProcessFormatChange p mt s2 of
                                            (Inl e, s3) \<Rightarrow> Some (e, s3)
                                          | (Inr u, s3) \<Rightarrow> Some (S_OK, s3))
                                  else Some (S_OK, s2)))))"

definition Start :: "platform \<Rightarrow> MFTIME \<Rightarrow> sink \<Rightarrow> (hresult \<times> sink) option" where
  "Start p start s =
     (case ValidateOperation p s OpStart of
        None \<Rightarrow> None
      | Some hr \<Rightarrow>
          if SUCCEEDED hr then
            Some (QueueAsyncOperation p OpStart
                    ((if start \<noteq> PRESENTATION_CURRENT_POSITION
                      then s\<lparr>startTime := start, fGetStartTimeFromSample := False\<rparr>
                      else s\<lparr>fGetStartTimeFromSample := True\<rparr>)\<lparr>state := State_Started\<rparr>))
          else Some (hr, s))"

definition Stop :: "platform \<Rightarrow> sink \<Rightarrow> (hresult \<times> sink) option" where
  "Stop p s =
     (case ValidateOperation p s OpStop of
        None \<Rightarrow> None
      | Some hr \<Rightarrow>
          if SUCCEEDED hr then Some (QueueAsyncOperation p OpStop (s\<lparr>state := State_Stopped\<rparr>))
          else Some (hr, s))"

definition Pause :: "platform \<Rightarrow> sink \<Rightarrow> (hresult \<times> sink) option" where
  "Pause p s =
     (case ValidateOperation p s OpPause of
        None \<Rightarrow> None
      | Some hr \<Rightarrow>
          if SUCCEEDED hr then Some (QueueAsyncOperation p OpPause (s\<lparr>state := State_Paused\<rparr>))
          else Some (hr, s))"

definition Restart :: "platform \<Rightarrow> sink \<Rightarrow> (hresult \<times> sink) option" where
  "Restart p s =
     (case ValidateOperation p s OpRestart of
        None \<Rightarrow> None
      | Some hr \<Rightarrow>
          if SUCCEEDED hr then Some (QueueAsyncOperation p OpRestart (s\<lparr>state := State_Started\<rparr>))
          else Some (hr, s))"

text \<open>
  \<open>Shutdown\<close> empties the sample queue, releases the current type and sets the flag.
  It also shuts the event queue down and unlocks the work queue; work items put before
  stay in \<open>workQueue\<close> and may still be run.
\<close>

definition Shutdown :: "sink \<Rightarrow> hresult \<times> sink" where
  "Shutdown s =
     (if \<not> isShutdown s
      then (S_OK, s\<lparr>sampleQueue := [], spCurrentType := None, isShutdown := True\<rparr>)
      else (S_OK, s))"

section \<open>The media sink's calls into the stream sink\<close>

text \<open>
  Of VideoCaptureMediaSinkWinRT, the fields and the two methods that decide whether the
  stream sink is called after it was shut down. \<open>RemoveStreamSink\<close> shuts the stream
  sink down and keeps the pointer to it; \<open>OnClockStart\<close> tests the media sink's own
  flag, calls \<open>Start\<close> on the stream sink and ignores what it returns. A call through a
  null pointer, like an assertion that fails, is the result \<open>None\<close>.
\<close>

definition MF_E_INVALIDSTREAMNUMBER :: hresult where
  "MF_E_INVALIDSTREAMNUMBER = 0xC00D36B3"

definition GetStreamId :: "32 word" where
  "GetStreamId = 0"

record media_sink =
  mediaSink_isShutdown :: bool
  spStreamSink :: "sink option"
  llStartTime :: MFTIME

definition RemoveStreamSink :: "32 word \<Rightarrow> media_sink \<Rightarrow> hresult \<times> media_sink" where
  "RemoveStreamSink dwStreamSinkIdentifier ms =
     (if mediaSink_isShutdown ms then (MF_E_SHUTDOWN, ms)
      else if dwStreamSinkIdentifier \<noteq> GetStreamId then (MF_E_INVALIDSTREAMNUMBER, ms)
      else (case spStreamSink ms of
              None \<Rightarrow> (S_OK, ms)
            | Some stream \<Rightarrow> (S_OK, ms\<lparr>spStreamSink := Some (snd (Shutdown stream))\<rparr>)))"

definition OnClockStart :: "platform \<Rightarrow> MFTIME \<Rightarrow> MFTIME \<Rightarrow> media_sink \<Rightarrow> (hresult \<times> media_sink) option" where
  "OnClockStart p hnsSystemTime llClockStartOffset ms =
     (if mediaSink_isShutdown ms then Some (MF_E_SHUTDOWN, ms)
      else (case spStreamSink ms of
              None \<Rightarrow> None
            | Some stream \<Rightarrow>
                (case Start p llClockStartOffset stream of
                   None \<Rightarrow> None
                 | Some (hrStream, stream1) \<Rightarrow>
                     Some (S_OK, ms\<lparr>llStartTime := llClockStartOffset,
                                     spStreamSink := Some stream1\<rparr>))))"

section \<open>Notions used to state the properties\<close>

text \<open>The sink as the constructor leaves it.\<close>

definition new_sink :: sink where
  "new_sink =
     \<lparr>state = State_TypeNotSet, isShutdown = False, fGetStartTimeFromSample = False,
      startTime = 0, spCurrentType = None, guiCurrentSubtype = 0, sampleQueue = [],
      workQueue = [], events = [], delivered = []\<rparr>"

text \<open>
  The samples among the queued items, in queue order; whether an item is a sample, and
  whether it is a sample without a buffer, at which the drain breaks off.
\<close>

fun samples_of :: "queue_item list \<Rightarrow> sample list" where
  "samples_of [] = []"
| "samples_of (SampleItem smp # q) = smp # samples_of q"
| "samples_of (MediaTypeItem mt # q) = samples_of q"

fun is_sample :: "queue_item \<Rightarrow> bool" where
  "is_sample (SampleItem smp) = True"
| "is_sample (MediaTypeItem mt) = False"

fun has_buffer :: "queue_item \<Rightarrow> bool" where
  "has_buffer (SampleItem smp) = (0 < buffer_count smp)"
| "has_buffer (MediaTypeItem mt) = True"

text \<open>
  What a drain that emits no event leaves in the queue, and what it has passed to the
  callback, when it breaks off at the first sample without a buffer.
\<close>

fun items_left_by_break :: "queue_item list \<Rightarrow> queue_item list" where
  "items_left_by_break [] = []"
| "items_left_by_break (SampleItem smp # q) =
     (if 0 < buffer_count smp then items_left_by_break q else q)"
| "items_left_by_break (MediaTypeItem mt # q) = items_left_by_break q"

fun passed_to_callback :: "queue_item list \<Rightarrow> sample list" where
  "passed_to_callback [] = []"
| "passed_to_callback (SampleItem smp # q) =
     (if 0 < buffer_count smp then smp # passed_to_callback q else [])"
| "passed_to_callback (MediaTypeItem mt # q) = passed_to_callback q"

text \<open>RequestSample events, and their number in a list of events.\<close>

definition request_events :: "nat \<Rightarrow> event list" where
  "request_events n = replicate n (Event MEStreamSinkRequestSample S_OK)"

fun is_RequestSample :: "event \<Rightarrow> bool" where
  "is_RequestSample (Event met hr) = (met = MEStreamSinkRequestSample)"

definition count_RequestSample :: "event list \<Rightarrow> nat" where
  "count_RequestSample evs = length (filter is_RequestSample evs)"

text \<open>
  The public operations of section 6 of the specification, with their arguments, the
  operation each validates, and the function of the sink each one is.
\<close>

datatype call =
  CallSetFormat "media_type option" | CallStart MFTIME | CallRestart | CallPause | CallStop
  | CallPushSample "sample option"

fun call_op :: "call \<Rightarrow> StreamOperation" where
  "call_op (CallSetFormat pMediaType) = OpSetMediaType"
| "call_op (CallStart start) = OpStart"
| "call_op CallRestart = OpRestart"
| "call_op CallPause = OpPause"
| "call_op CallStop = OpStop"
| "call_op (CallPushSample pSample) = OpProcessSample"

fun perform :: "platform \<Rightarrow> call \<Rightarrow> sink \<Rightarrow> (hresult \<times> sink) option" where
  "perform p (CallSetFormat pMediaType) s = SetCurrentMediaType p pMediaType s"
| "perform p (CallStart start) s = Start p start s"
| "perform p CallRestart s = Restart p s"
| "perform p CallPause s = Pause p s"
| "perform p CallStop s = Stop p s"
| "perform p (CallPushSample pSample) s = ProcessSample p pSample s"

text \<open>
  Concrete platforms, media types, samples and sinks. The two subtypes are the GUIDs of
  the NV12 and YUY2 video formats.
\<close>

definition debug_build :: platform where
  "debug_build = \<lparr>assertions = True, MFPutWorkItem2_result = S_OK, QueueEventParamVar_result = S_OK\<rparr>"

definition release_build :: platform where
  "release_build = \<lparr>assertions = False, MFPutWorkItem2_result = S_OK, QueueEventParamVar_result = S_OK\<rparr>"

definition MFVideoFormat_NV12 :: guid where
  "MFVideoFormat_NV12 = 0x3231564E00000010800000AA00389B71"

definition MFVideoFormat_YUY2 :: guid where
  "MFVideoFormat_YUY2 = 0x3259555900000010800000AA00389B71"

definition video_type :: "guid \<Rightarrow> nat \<times> nat \<Rightarrow> media_type" where
  "video_type g fs = \<lparr>major_type = Some MFMediaType_Video, subtype = Some g, frame_size = fs\<rparr>"

definition frame :: "nat \<Rightarrow> sample" where
  "frame n = \<lparr>sample_id = n, buffer_count = 1\<rparr>"

definition empty_sample :: "nat \<Rightarrow> sample" where
  "empty_sample n = \<lparr>sample_id = n, buffer_count = 0\<rparr>"

definition streaming_sink :: "State \<Rightarrow> queue_item list \<Rightarrow> sink" where
  "streaming_sink st q =
     \<lparr>state = st, isShutdown = False, fGetStartTimeFromSample = False,
      startTime = 0, spCurrentType = Some (video_type MFVideoFormat_NV12 (640, 480)),
      guiCurrentSubtype = MFVideoFormat_NV12, sampleQueue = q,
      workQueue = [], events = [], delivered = []\<rparr>"

definition hd_type :: media_type where
  "hd_type = video_type MFVideoFormat_NV12 (1280, 720)"

definition untyped_yuy2 :: media_type where
  "untyped_yuy2 = \<lparr>major_type = None, subtype = Some MFVideoFormat_YUY2, frame_size = (640, 480)\<rparr>"

definition ready_sink :: sink where
  "ready_sink =
     new_sink\<lparr>state := State_Ready,
       spCurrentType := Some (video_type MFVideoFormat_NV12 (640, 480)),
       guiCurrentSubtype := MFVideoFormat_NV12\<rparr>"

definition shut_down_sink :: sink where
  "shut_down_sink = ready_sink\<lparr>spCurrentType := None, isShutdown := True\<rparr>"

text \<open>
  What the sink exchanges with its neighbours: the queue and the samples handed to the
  callback. One such pair follows another in order when the samples handed over only
  grow, what is left in the queue is its tail, and the new samples followed by the ones
  still queued are, in this order, among the samples queued before.
\<close>

definition traffic :: "sink \<Rightarrow> queue_item list \<times> sample list" where
  "traffic s = (sampleQueue s, delivered s)"

definition in_order :: "queue_item list \<times> sample list \<Rightarrow> queue_item list \<times> sample list \<Rightarrow> bool" where
  "in_order a b =
     (\<exists>ys. snd b = snd a @ ys
         \<and> subseq (ys @ samples_of (fst b)) (samples_of (fst a))
         \<and> suffix (fst b) (fst a))"

text \<open>
  A schedule: public calls, flushes, shutdowns and steps of the work queue in any order.
  \<open>run\<close> is \<open>None\<close> when an assertion stops the program. \<open>pushed\<close> lists the
  samples the schedule pushes, and \<open>keeps_format\<close> holds of the actions other than a
  format change and a shutdown.
\<close>

datatype action = Call call | Work | DoFlush | DoShutdown

fun act :: "platform \<Rightarrow> action \<Rightarrow> sink \<Rightarrow> sink option" where
  "act p (Call c) s = (case perform p c s of None \<Rightarrow> None | Some (hr, s1) \<Rightarrow> Some s1)"
| "act p Work s = Some (work_queue_step p s)"
| "act p DoFlush s = Some (snd (Flush p s))"
| "act p DoShutdown s = Some (snd (Shutdown s))"

fun run :: "platform \<Rightarrow> action list \<Rightarrow> sink \<Rightarrow> sink option" where
  "run p [] s = Some s"
| "run p (a # as) s = (case act p a s of None \<Rightarrow> None | Some s1 \<Rightarrow> run p as s1)"

fun pushed :: "action list \<Rightarrow> sample list" where
  "pushed [] = []"
| "pushed (Call (CallPushSample (Some smp)) # as) = smp # pushed as"
| "pushed (a # as) = pushed as"

fun keeps_format :: "action \<Rightarrow> bool" where
  "keeps_format (Call (CallSetFormat pMediaType)) = False"
| "keeps_format DoShutdown = False"
| "keeps_format a = True"

definition ready_media_sink :: media_sink where
  "ready_media_sink =
     \<lparr>mediaSink_isShutdown = False, spStreamSink = Some ready_sink, llStartTime = 0\<rparr>"

definition interleaved_sink :: "media_type \<Rightarrow> queue_item list \<Rightarrow> StreamOperation list \<Rightarrow> nat \<Rightarrow> sample list \<Rightarrow> sink" where
  "interleaved_sink mt q w n d =
     (streaming_sink State_Started q)
       \<lparr>spCurrentType := Some mt, workQueue := w, events := request_events n,
        delivered := d\<rparr>"

text \<open>
  The fields that decide what the operations do and that no drain of the queue touches.
\<close>

definition control :: "sink \<Rightarrow> State \<times> bool \<times> media_type option \<times> guid \<times> StreamOperation list" where
  "control s = (state s, isShutdown s, spCurrentType s, guiCurrentSubtype s, workQueue s)"

text \<open>
  The sinks that can arise: a sink as the constructor leaves it, and whatever the public
  calls, \<open>Flush\<close>, \<open>Shutdown\<close> and the work queue make of a sink that can arise.
\<close>

inductive reachable :: "platform \<Rightarrow> sink \<Rightarrow> bool" for p :: platform where
  created: "reachable p new_sink"
| called: "reachable p s \<Longrightarrow> perform p c s = Some (hr, s') \<Longrightarrow> reachable p s'"
| flushed: "reachable p s \<Longrightarrow> reachable p (snd (Flush p s))"
| shut_down: "reachable p s \<Longrightarrow> reachable p (snd (Shutdown s))"
| worked: "reachable p s \<Longrightarrow> reachable p (work_queue_step p s)"

text \<open>
  The current type is set and the cached subtype is its subtype; this holds of every
  sink whose state is past NotSet, until it is shut down, and a shut-down sink has an
  empty queue.
\<close>

fun subtype_is :: "media_type option \<Rightarrow> guid \<Rightarrow> bool" where
  "subtype_is None g = False"
| "subtype_is (Some mt) g = (subtype mt = Some g)"

definition format_set :: "sink \<Rightarrow> bool" where
  "format_set s = subtype_is (spCurrentType s) (guiCurrentSubtype s)"

definition sink_inv :: "sink \<Rightarrow> bool" where
  "sink_inv s =
     ((isShutdown s \<or> state s = State_TypeNotSet \<or> format_set s)
      \<and> (\<not> isShutdown s \<or> sampleQueue s = []))"

section \<open>Facts about the platform values\<close>

lemma SUCCEEDED_S_OK [simp]: "SUCCEEDED S_OK"
  by (simp add: SUCCEEDED_def S_OK_def)

lemma FAILED_iff [simp]: "FAILED hr = (\<not> SUCCEEDED hr)"
  by (auto simp: FAILED_def SUCCEEDED_def)

lemma not_SUCCEEDED_codes [simp]:
  "\<not> SUCCEEDED E_INVALIDARG"
  "\<not> SUCCEEDED MF_E_INVALIDREQUEST"
  "\<not> SUCCEEDED MF_E_INVALIDTYPE"
  "\<not> SUCCEEDED MF_E_NOT_INITIALIZED"
  "\<not> SUCCEEDED MF_E_ATTRIBUTENOTFOUND"
  "\<not> SUCCEEDED MF_E_SHUTDOWN"
  by (simp_all add: SUCCEEDED_def E_INVALIDARG_def MF_E_INVALIDREQUEST_def
      MF_E_INVALIDTYPE_def MF_E_NOT_INITIALIZED_def MF_E_ATTRIBUTENOTFOUND_def
      MF_E_SHUTDOWN_def)

lemma codes_distinct [simp]:
  "S_OK \<noteq> E_INVALIDARG" "S_OK \<noteq> MF_E_INVALIDREQUEST" "S_OK \<noteq> MF_E_INVALIDTYPE"
  "S_OK \<noteq> MF_E_NOT_INITIALIZED" "S_OK \<noteq> MF_E_ATTRIBUTENOTFOUND" "S_OK \<noteq> MF_E_SHUTDOWN"
  "MF_E_NOT_INITIALIZED \<noteq> MF_E_INVALIDREQUEST"
  "MF_E_INVALIDTYPE \<noteq> MF_E_ATTRIBUTENOTFOUND"
  "MF_E_INVALIDTYPE \<noteq> MF_E_SHUTDOWN"
  "MF_E_INVALIDTYPE \<noteq> E_INVALIDARG"
  "MF_E_SHUTDOWN \<noteq> MF_E_NOT_INITIALIZED"
  "MF_E_SHUTDOWN \<noteq> MF_E_INVALIDREQUEST"
  by (simp_all add: S_OK_def E_INVALIDARG_def MF_E_INVALIDREQUEST_def
      MF_E_INVALIDTYPE_def MF_E_NOT_INITIALIZED_def MF_E_ATTRIBUTENOTFOUND_def
      MF_E_SHUTDOWN_def)

lemmas codes_distinct_sym [simp] = codes_distinct [symmetric]

lemma matrix_is_table:
  "ValidStateMatrix ! state_index st ! op_index op = spec_table st op"
  by (cases st; cases op) (simp_all add: ValidStateMatrix_def)

lemma not_S_OK: "\<not> SUCCEEDED hr \<Longrightarrow> hr \<noteq> S_OK"
  by auto

lemma QueueEvent_ok:
  "\<not> isShutdown s \<Longrightarrow> SUCCEEDED (QueueEventParamVar_result p) \<Longrightarrow>
   QueueEvent p met hr s = (QueueEventParamVar_result p, s\<lparr>events := events s @ [Event met hr]\<rparr>)"
  by (simp add: QueueEvent_def)

lemma ThrowIfError_ok: "SUCCEEDED hr \<Longrightarrow> ThrowIfError hr = Inr ()"
  by (simp add: ThrowIfError_def)

lemma request_events_snoc:
  "request_events n @ [Event MEStreamSinkRequestSample S_OK] = request_events (Suc n)"
  by (simp add: request_events_def replicate_append_same)

lemma QueueAsyncOperation_ok:
  "SUCCEEDED (MFPutWorkItem2_result p) \<Longrightarrow>
   QueueAsyncOperation p op s = (MFPutWorkItem2_result p, s\<lparr>workQueue := workQueue s @ [op]\<rparr>)"
  by (simp add: QueueAsyncOperation_def)

lemmas example_defs =
  debug_build_def release_build_def new_sink_def streaming_sink_def frame_def
  empty_sample_def video_type_def hd_type_def untyped_yuy2_def ready_sink_def
  MFVideoFormat_NV12_def MFVideoFormat_YUY2_def MFMediaType_Video_def

lemmas more_example_defs = interleaved_sink_def request_events_def ready_media_sink_def

lemmas operation_defs =
  ProcessSample_def SetCurrentMediaType_def IsMediaTypeSupported_def ProcessFormatChange_def
  Start_def Stop_def Pause_def Restart_def Shutdown_def Flush_def
  ValidateOperation_def ValidStateMatrix_def QueueAsyncOperation_def QueueEvent_def
  ThrowIfError_def HandleError_def work_queue_step_def OnDispatchWorkItem_def
  DispatchProcessSample_def SendSampleFromQueue_def DropSamplesFromQueue_def
  ProcessSamplesFromQueue_def ProcessSamplesFromQueue_loop.simps

section \<open>The drain loop\<close>

lemma GetBufferByIndex_0 [simp]: "SUCCEEDED (GetBufferByIndex smp 0) = (0 < buffer_count smp)"
  by (simp add: GetBufferByIndex_def)

lemma loop_drains:
  assumes "list_all has_buffer (x # q)" and "sampleQueue s = q"
    and "fFlush \<or> state s \<noteq> State_Started \<or> isShutdown s \<or> SUCCEEDED (QueueEventParamVar_result p)"
  shows "ProcessSamplesFromQueue_loop p fFlush x s =
           (Inr True,
            s\<lparr>sampleQueue := [],
              events := events s @ request_events
                 (if state s = State_Started \<and> \<not> fFlush \<and> \<not> isShutdown s
                  then length (samples_of (x # q)) else 0),
              delivered := delivered s @ samples_of (x # q)\<rparr>)"
  using assms
proof (induction q arbitrary: x s)
  case Nil
  then show ?case
    by (subst ProcessSamplesFromQueue_loop.simps)
       (cases x; auto simp: QueueEvent_def request_events_def)
next
  case (Cons y q)
  define s1 where "s1 = (case x of SampleItem smp \<Rightarrow> s\<lparr>delivered := delivered s @ [smp]\<rparr>
                          | MediaTypeItem mt \<Rightarrow> s)"
  define s2 where "s2 = (if state s = State_Started \<and> \<not> fFlush \<and> \<not> isShutdown s \<and> is_sample x
                         then s1\<lparr>events := events s1 @ [Event MEStreamSinkRequestSample S_OK]\<rparr>
                         else s1)"
  have step: "ProcessSamplesFromQueue_loop p fFlush x s =
              ProcessSamplesFromQueue_loop p fFlush y (s2\<lparr>sampleQueue := q\<rparr>)"
    using Cons.prems
    by (subst ProcessSamplesFromQueue_loop.simps)
       (auto simp: s1_def s2_def QueueEvent_def split: queue_item.splits)
  have rest: "ProcessSamplesFromQueue_loop p fFlush y (s2\<lparr>sampleQueue := q\<rparr>) =
           (Inr True,
            (s2\<lparr>sampleQueue := q\<rparr>)\<lparr>sampleQueue := [],
              events := events (s2\<lparr>sampleQueue := q\<rparr>) @ request_events
                 (if state (s2\<lparr>sampleQueue := q\<rparr>) = State_Started \<and> \<not> fFlush
                     \<and> \<not> isShutdown (s2\<lparr>sampleQueue := q\<rparr>)
                  then length (samples_of (y # q)) else 0),
              delivered := delivered (s2\<lparr>sampleQueue := q\<rparr>) @ samples_of (y # q)\<rparr>)"
    using Cons.prems
    by (intro Cons.IH) (auto simp: s1_def s2_def split: queue_item.splits)
  show ?case
    unfolding step rest using Cons.prems
    by (cases x) (auto simp: s1_def s2_def request_events_def replicate_append_same)
qed

lemma loop_quiet:
  assumes "sampleQueue s = q" and "fFlush \<or> state s \<noteq> State_Started \<or> isShutdown s"
  shows "ProcessSamplesFromQueue_loop p fFlush x s =
           (Inr (list_all has_buffer (x # q)),
            s\<lparr>sampleQueue := items_left_by_break (x # q),
              delivered := delivered s @ passed_to_callback (x # q)\<rparr>)"
  using assms
proof (induction q arbitrary: x s)
  case Nil
  then show ?case
    by (subst ProcessSamplesFromQueue_loop.simps) (cases x; auto)
next
  case (Cons y q)
  show ?case
  proof (cases "has_buffer x")
    case False
    then show ?thesis
      using Cons.prems
      by (subst ProcessSamplesFromQueue_loop.simps) (cases x; auto)
  next
    case True
    define s1 where "s1 = (case x of SampleItem smp \<Rightarrow> s\<lparr>delivered := delivered s @ [smp]\<rparr>
                            | MediaTypeItem mt \<Rightarrow> s)"
    have step: "ProcessSamplesFromQueue_loop p fFlush x s =
                ProcessSamplesFromQueue_loop p fFlush y (s1\<lparr>sampleQueue := q\<rparr>)"
      using Cons.prems True
      by (subst ProcessSamplesFromQueue_loop.simps)
         (auto simp: s1_def split: queue_item.splits)
    have rest: "ProcessSamplesFromQueue_loop p fFlush y (s1\<lparr>sampleQueue := q\<rparr>) =
             (Inr (list_all has_buffer (y # q)),
              (s1\<lparr>sampleQueue := q\<rparr>)\<lparr>sampleQueue := items_left_by_break (y # q),
                delivered := delivered (s1\<lparr>sampleQueue := q\<rparr>) @ passed_to_callback (y # q)\<rparr>)"
      using Cons.prems by (intro Cons.IH) (auto simp: s1_def split: queue_item.splits)
    show ?thesis
      unfolding step rest using True
      by (cases x) (auto simp: s1_def)
  qed
qed

lemma ProcessSamplesFromQueue_quiet:
  assumes "fFlush \<or> state s \<noteq> State_Started \<or> isShutdown s"
  shows "ProcessSamplesFromQueue p fFlush s =
     (Inr (list_all has_buffer (sampleQueue s)),
      s\<lparr>sampleQueue := items_left_by_break (sampleQueue s),
        delivered := delivered s @ passed_to_callback (sampleQueue s)\<rparr>)"
proof (cases "sampleQueue s")
  case Nil
  then show ?thesis by (simp add: ProcessSamplesFromQueue_def)
next
  case (Cons x q)
  have "ProcessSamplesFromQueue_loop p fFlush x (s\<lparr>sampleQueue := q\<rparr>) =
           (Inr (list_all has_buffer (x # q)),
            (s\<lparr>sampleQueue := q\<rparr>)\<lparr>sampleQueue := items_left_by_break (x # q),
              delivered := delivered (s\<lparr>sampleQueue := q\<rparr>) @ passed_to_callback (x # q)\<rparr>)"
    using assms by (intro loop_quiet) auto
  then show ?thesis using Cons by (simp add: ProcessSamplesFromQueue_def)
qed

lemma DropSamplesFromQueue_eq:
  "DropSamplesFromQueue p s =
     (Inr True,
      s\<lparr>sampleQueue := items_left_by_break (sampleQueue s),
        delivered := delivered s @ passed_to_callback (sampleQueue s)\<rparr>)"
  by (simp_all add: DropSamplesFromQueue_def ProcessSamplesFromQueue_quiet)

lemma items_left_none: "list_all has_buffer q \<Longrightarrow> items_left_by_break q = []"
  by (induction q rule: items_left_by_break.induct) auto

lemma SendSampleFromQueue_eq:
  assumes "list_all has_buffer (sampleQueue s)"
    and "state s \<noteq> State_Started \<or> isShutdown s \<or> SUCCEEDED (QueueEventParamVar_result p)"
  shows "SendSampleFromQueue p s =
           (Inr True,
            s\<lparr>sampleQueue := [],
              events := events s @ request_events
                 (if state s = State_Started \<and> \<not> isShutdown s
                  then length (samples_of (sampleQueue s)) else 0),
              delivered := delivered s @ samples_of (sampleQueue s)\<rparr>)"
proof (cases "sampleQueue s")
  case Nil
  then show ?thesis
    by (simp add: SendSampleFromQueue_def ProcessSamplesFromQueue_def request_events_def)
next
  case (Cons x q)
  have "ProcessSamplesFromQueue_loop p False x (s\<lparr>sampleQueue := q\<rparr>) =
          (Inr True,
            (s\<lparr>sampleQueue := q\<rparr>)\<lparr>sampleQueue := [],
              events := events (s\<lparr>sampleQueue := q\<rparr>) @ request_events
                 (if state (s\<lparr>sampleQueue := q\<rparr>) = State_Started \<and> \<not> False
                      \<and> \<not> isShutdown (s\<lparr>sampleQueue := q\<rparr>)
                  then length (samples_of (x # q)) else 0),
              delivered := delivered (s\<lparr>sampleQueue := q\<rparr>) @ samples_of (x # q)\<rparr>)"
    using assms Cons by (intro loop_drains) auto
  then show ?thesis
    using Cons by (simp add: SendSampleFromQueue_def ProcessSamplesFromQueue_def)
qed

section \<open>Work items\<close>

lemma DispatchProcessSample_started:
  assumes "state s = State_Started" and "\<not> isShutdown s"
    and "SUCCEEDED (QueueEventParamVar_result p)"
    and "list_all has_buffer (sampleQueue s)"
  shows "DispatchProcessSample p m_op s =
           (Inr (),
            s\<lparr>sampleQueue := [],
              events := events s @ request_events
                 (length (samples_of (sampleQueue s)) + (if m_op = OpProcessSample then 1 else 0)),
              delivered := delivered s @ samples_of (sampleQueue s)\<rparr>)"
  using assms
  by (simp add: DispatchProcessSample_def SendSampleFromQueue_eq QueueEvent_ok ThrowIfError_ok
      request_events_snoc)

lemma OnDispatchWorkItem_dispatch:
  assumes "state s = State_Started" and "\<not> isShutdown s"
    and "SUCCEEDED (QueueEventParamVar_result p)"
    and "list_all has_buffer (sampleQueue s)"
    and "op = OpProcessSample \<or> op = OpSetMediaType"
  shows "OnDispatchWorkItem p op s =
           (S_OK,
            s\<lparr>sampleQueue := [],
              events := events s @ request_events
                 (length (samples_of (sampleQueue s)) + (if op = OpProcessSample then 1 else 0)),
              delivered := delivered s @ samples_of (sampleQueue s)\<rparr>)"
proof -
  have "OnDispatchWorkItem_body p op s = DispatchProcessSample p op s"
    using assms(5) by auto
  then show ?thesis
    using assms by (simp add: OnDispatchWorkItem_def DispatchProcessSample_started)
qed

lemma OnDispatchWorkItem_Stop:
  assumes "\<not> isShutdown s" and "SUCCEEDED (QueueEventParamVar_result p)"
  shows "OnDispatchWorkItem p OpStop s =
           (S_OK,
            s\<lparr>sampleQueue := items_left_by_break (sampleQueue s),
              events := events s @ [Event MEStreamSinkStopped S_OK],
              delivered := delivered s @ passed_to_callback (sampleQueue s)\<rparr>)"
  using assms
  by (simp add: OnDispatchWorkItem_def DropSamplesFromQueue_eq QueueEvent_ok ThrowIfError_ok)

lemma OnDispatchWorkItem_Pause_frame:
  "sampleQueue (snd (OnDispatchWorkItem p OpPause s)) = sampleQueue s
   \<and> delivered (snd (OnDispatchWorkItem p OpPause s)) = delivered s
   \<and> state (snd (OnDispatchWorkItem p OpPause s)) = state s"
  by (simp add: OnDispatchWorkItem_def QueueEvent_def ThrowIfError_def HandleError_def)

lemma OnDispatchWorkItem_after_shutdown:
  assumes "isShutdown s" and "sampleQueue s = []"
  shows "OnDispatchWorkItem p op s = (S_OK, s)"
  using assms
  by (cases op)
     (simp_all add: OnDispatchWorkItem_def DispatchProcessSample_def SendSampleFromQueue_def
        DropSamplesFromQueue_def ProcessSamplesFromQueue_def QueueEvent_def ThrowIfError_def
        HandleError_def)

lemma OnDispatchWorkItem_keeps_flag:
  assumes "isShutdown s"
  shows "isShutdown (snd (OnDispatchWorkItem p op s))"
  using assms
  by (cases op)
     (simp_all add: OnDispatchWorkItem_def DispatchProcessSample_def SendSampleFromQueue_def
        DropSamplesFromQueue_def ProcessSamplesFromQueue_quiet QueueEvent_def ThrowIfError_def
        HandleError_def)

section \<open>Public operations, step by step\<close>

lemma ValidateOperation_eq:
  "\<not> (assertions p \<and> isShutdown s) \<Longrightarrow>
   ValidateOperation p s op =
     Some (if spec_table (state s) op then S_OK
           else if state s = State_TypeNotSet then MF_E_NOT_INITIALIZED
           else MF_E_INVALIDREQUEST)"
  by (auto simp: ValidateOperation_def matrix_is_table)

lemma ProcessSample_started:
  assumes "state s = State_Started" and "\<not> isShutdown s" and "SUCCEEDED (MFPutWorkItem2_result p)"
  shows "ProcessSample p (Some smp) s =
           Some (MFPutWorkItem2_result p,
                 s\<lparr>sampleQueue := sampleQueue s @ [SampleItem smp],
                   workQueue := workQueue s @ [OpProcessSample]\<rparr>)"
  using assms by (simp add: ProcessSample_def ValidateOperation_eq QueueAsyncOperation_ok)

lemma ProcessSample_paused:
  assumes "state s = State_Paused" and "\<not> isShutdown s"
  shows "ProcessSample p (Some smp) s =
           Some (S_OK, s\<lparr>sampleQueue := sampleQueue s @ [SampleItem smp]\<rparr>)"
  using assms by (simp add: ProcessSample_def ValidateOperation_eq)

lemma IsMediaTypeSupported_ok:
  assumes "\<not> isShutdown s" and "major_type mt = Some MFMediaType_Video"
    and "spCurrentType s = None \<or> subtype mt = Some (guiCurrentSubtype s)"
  shows "IsMediaTypeSupported (Some mt) s = S_OK"
  using assms by (auto simp: IsMediaTypeSupported_def)

lemma SetCurrentMediaType_streaming:
  assumes "state_index State_Ready < state_index (state s)" and "\<not> isShutdown s"
    and "SUCCEEDED (MFPutWorkItem2_result p)"
    and "major_type mt = Some MFMediaType_Video"
    and "subtype mt = Some (guiCurrentSubtype s)"
  shows "SetCurrentMediaType p (Some mt) s =
           Some (S_OK,
                 s\<lparr>spCurrentType := Some mt,
                   sampleQueue := sampleQueue s @ [MediaTypeItem mt],
                   workQueue := workQueue s @ [OpSetMediaType]\<rparr>)"
proof -
  have v: "ValidateOperation p s OpSetMediaType = Some S_OK"
    using assms(2) by (cases "state s") (simp_all add: ValidateOperation_eq)
  have i: "IsMediaTypeSupported (Some mt) s = S_OK"
    using assms by (simp add: IsMediaTypeSupported_ok)
  show ?thesis
    using assms
    by (simp add: SetCurrentMediaType_def v i ProcessFormatChange_def QueueAsyncOperation_ok
        ThrowIfError_ok)
qed

section \<open>What a drain leaves alone\<close>

lemma control_upd [simp]:
  "control (s\<lparr>delivered := d\<rparr>) = control s"
  "control (s\<lparr>events := e\<rparr>) = control s"
  "control (s\<lparr>sampleQueue := q\<rparr>) = control s"
  by (simp_all add: control_def)

lemma control_QueueEvent [simp]: "control (snd (QueueEvent p met hr s)) = control s"
  by (simp add: QueueEvent_def)

lemma sampleQueue_QueueEvent [simp]: "sampleQueue (snd (QueueEvent p met hr s)) = sampleQueue s"
  by (simp add: QueueEvent_def)

lemma control_loop:
  "sampleQueue s = q \<Longrightarrow> control (snd (ProcessSamplesFromQueue_loop p fFlush x s)) = control s"
proof (induction q arbitrary: x s)
  case Nil
  then show ?case
    by (subst ProcessSamplesFromQueue_loop.simps)
       (auto simp: case_prod_unfold split: queue_item.splits)
next
  case (Cons y q)
  show ?case
    using Cons.prems Cons.IH
    by (subst ProcessSamplesFromQueue_loop.simps)
       (auto simp: case_prod_unfold split: queue_item.splits list.splits)
qed

lemma control_ProcessSamplesFromQueue [simp]:
  "control (snd (ProcessSamplesFromQueue p fFlush s)) = control s"
  by (cases "sampleQueue s") (simp_all add: ProcessSamplesFromQueue_def control_loop)

lemma control_DropSamplesFromQueue [simp]:
  "control (snd (DropSamplesFromQueue p s)) = control s"
  using control_ProcessSamplesFromQueue [of p True s]
  by (auto simp: DropSamplesFromQueue_def case_prod_unfold split: sum.splits)

lemma control_HandleError [simp]: "control (HandleError p hr s) = control s"
  by (simp add: HandleError_def)

lemma control_DispatchProcessSample [simp]:
  "control (snd (DispatchProcessSample p m_op s)) = control s"
  by (auto simp: DispatchProcessSample_def SendSampleFromQueue_def case_prod_unfold
      split: sum.splits)

lemma control_OnDispatchWorkItem_body [simp]:
  "control (snd (OnDispatchWorkItem_body p op s)) = control s"
  by (cases op) (auto simp: case_prod_unfold split: sum.splits)

lemma control_OnDispatchWorkItem:
  "control (snd (OnDispatchWorkItem p op s)) = control s"
  by (auto simp: OnDispatchWorkItem_def case_prod_unfold split: sum.splits)

section \<open>An invariant of the sinks that can arise\<close>

lemma controlD:
  assumes "control s' = control s"
  shows "state s' = state s" "isShutdown s' = isShutdown s"
    "spCurrentType s' = spCurrentType s" "guiCurrentSubtype s' = guiCurrentSubtype s"
    "workQueue s' = workQueue s"
  using assms by (simp_all add: control_def)

lemma format_set_control: "control s' = control s \<Longrightarrow> format_set s' = format_set s"
  by (simp add: format_set_def control_def)

lemma SetCurrentMediaType_inv:
  assumes "sink_inv s" and "SetCurrentMediaType p pMediaType s = Some (hr, s')"
  shows "sink_inv s'"
proof (cases pMediaType)
  case None
  then show ?thesis using assms by (simp add: SetCurrentMediaType_def)
next
  case (Some mt)
  show ?thesis
  proof (cases "isShutdown s")
    case True
    then show ?thesis using assms Some by (simp add: SetCurrentMediaType_def)
  next
    case False
    have v: "ValidateOperation p s OpSetMediaType = Some S_OK"
      using False by (cases "state s") (simp_all add: ValidateOperation_eq)
    show ?thesis
    proof (cases "state s = State_TypeNotSet")
      case True
      then show ?thesis
        using assms Some False
        by (auto simp: SetCurrentMediaType_def v sink_inv_def format_set_def
            split: option.splits)
    next
      case nn: False
      then have fs: "format_set s" and r: "state_index State_Ready \<le> state_index (state s)"
        using assms(1) False by (cases "state s"; simp add: sink_inv_def)+
      show ?thesis
      proof (cases "SUCCEEDED (IsMediaTypeSupported (Some mt) s)")
        case False
        then show ?thesis
          using assms Some \<open>\<not> isShutdown s\<close> r by (simp add: SetCurrentMediaType_def v)
      next
        case True
        then have st: "subtype mt = Some (guiCurrentSubtype s)"
          using fs \<open>\<not> isShutdown s\<close>
          by (cases "spCurrentType s")
             (auto simp: IsMediaTypeSupported_def format_set_def
              split: option.splits if_splits)
        show ?thesis
          using assms Some \<open>\<not> isShutdown s\<close> r True st nn
          by (cases "state s")
             (auto simp: SetCurrentMediaType_def v sink_inv_def format_set_def
                ProcessFormatChange_def QueueAsyncOperation_def ThrowIfError_def Let_def
                split: if_splits)
      qed
    qed
  qed
qed

lemma validated_not_NotSet:
  assumes "ValidateOperation p s op = Some hr" and "SUCCEEDED hr" and "op \<noteq> OpSetMediaType"
  shows "state s \<noteq> State_TypeNotSet"
  using assms
  by (cases op) (auto simp: ValidateOperation_def ValidStateMatrix_def split: if_splits)

lemma inv_frame:
  assumes "sink_inv s" and "state s \<noteq> State_TypeNotSet"
    and "isShutdown s' = isShutdown s" and "spCurrentType s' = spCurrentType s"
    and "guiCurrentSubtype s' = guiCurrentSubtype s" and "sampleQueue s' = sampleQueue s"
  shows "sink_inv s'"
  using assms by (auto simp: sink_inv_def format_set_def)

lemma perform_inv:
  assumes "sink_inv s" and "perform p c s = Some (hr, s')"
  shows "sink_inv s'"
proof (cases c)
  case (CallSetFormat x)
  then show ?thesis using assms SetCurrentMediaType_inv by simp
next
  case (CallStart t)
  then have "s' = s \<or> (\<exists>hv. ValidateOperation p s OpStart = Some hv \<and> SUCCEEDED hv)"
    using assms(2) by (auto simp: Start_def split: option.splits if_splits)
  then show ?thesis
  proof
    assume "s' = s" then show ?thesis using assms by simp
  next
    assume "\<exists>hv. ValidateOperation p s OpStart = Some hv \<and> SUCCEEDED hv"
    then have n: "state s \<noteq> State_TypeNotSet" using validated_not_NotSet by blast
    show ?thesis
      using assms CallStart
      by (intro inv_frame [OF assms(1) n])
         (auto simp: Start_def QueueAsyncOperation_def split: option.splits if_splits)
  qed
next
  case CallRestart
  then have "s' = s \<or> (\<exists>hv. ValidateOperation p s OpRestart = Some hv \<and> SUCCEEDED hv)"
    using assms(2) by (auto simp: Restart_def split: option.splits if_splits)
  then show ?thesis
  proof
    assume "s' = s" then show ?thesis using assms by simp
  next
    assume "\<exists>hv. ValidateOperation p s OpRestart = Some hv \<and> SUCCEEDED hv"
    then have n: "state s \<noteq> State_TypeNotSet" using validated_not_NotSet by blast
    show ?thesis
      using assms CallRestart
      by (intro inv_frame [OF assms(1) n])
         (auto simp: Restart_def QueueAsyncOperation_def split: option.splits if_splits)
  qed
next
  case CallPause
  then have "s' = s \<or> (\<exists>hv. ValidateOperation p s OpPause = Some hv \<and> SUCCEEDED hv)"
    using assms(2) by (auto simp: Pause_def split: option.splits if_splits)
  then show ?thesis
  proof
    assume "s' = s" then show ?thesis using assms by simp
  next
    assume "\<exists>hv. ValidateOperation p s OpPause = Some hv \<and> SUCCEEDED hv"
    then have n: "state s \<noteq> State_TypeNotSet" using validated_not_NotSet by blast
    show ?thesis
      using assms CallPause
      by (intro inv_frame [OF assms(1) n])
         (auto simp: Pause_def QueueAsyncOperation_def split: option.splits if_splits)
  qed
next
  case CallStop
  then have "s' = s \<or> (\<exists>hv. ValidateOperation p s OpStop = Some hv \<and> SUCCEEDED hv)"
    using assms(2) by (auto simp: Stop_def split: option.splits if_splits)
  then show ?thesis
  proof
    assume "s' = s" then show ?thesis using assms by simp
  next
    assume "\<exists>hv. ValidateOperation p s OpStop = Some hv \<and> SUCCEEDED hv"
    then have n: "state s \<noteq> State_TypeNotSet" using validated_not_NotSet by blast
    show ?thesis
      using assms CallStop
      by (intro inv_frame [OF assms(1) n])
         (auto simp: Stop_def QueueAsyncOperation_def split: option.splits if_splits)
  qed
next
  case (CallPushSample x)
  then have "s' = s \<or> (\<not> isShutdown s
      \<and> state s' = state s \<and> isShutdown s' = isShutdown s
      \<and> spCurrentType s' = spCurrentType s \<and> guiCurrentSubtype s' = guiCurrentSubtype s)"
    using assms(2)
    by (auto simp: ProcessSample_def QueueAsyncOperation_def Let_def
        split: option.splits if_splits)
  then show ?thesis
    using assms(1) by (auto simp: sink_inv_def format_set_def)
qed

lemma Flush_inv: "sink_inv s \<Longrightarrow> sink_inv (snd (Flush p s))"
proof (cases "isShutdown s")
  case True
  then show "sink_inv s \<Longrightarrow> ?thesis" by (simp add: Flush_def)
next
  case False
  have c: "control (snd (Flush p s)) = control s"
    using control_DropSamplesFromQueue [of p s]
    by (auto simp: Flush_def case_prod_unfold split: sum.splits)
  show "sink_inv s \<Longrightarrow> ?thesis"
    using False controlD [OF c] format_set_control [OF c] by (simp add: sink_inv_def)
qed

lemma work_queue_step_inv: "sink_inv s \<Longrightarrow> sink_inv (work_queue_step p s)"
proof (cases "workQueue s")
  case Nil
  then show "sink_inv s \<Longrightarrow> ?thesis" by (simp add: work_queue_step_def)
next
  case (Cons op rest)
  let ?s0 = "s\<lparr>workQueue := rest\<rparr>"
  have w: "work_queue_step p s = snd (OnDispatchWorkItem p op ?s0)"
    using Cons by (simp add: work_queue_step_def)
  have c: "control (snd (OnDispatchWorkItem p op ?s0)) = control ?s0"
    by (rule control_OnDispatchWorkItem)
  assume i: "sink_inv s"
  show ?thesis
  proof (cases "isShutdown s")
    case True
    then have "OnDispatchWorkItem p op ?s0 = (S_OK, ?s0)"
      using i by (intro OnDispatchWorkItem_after_shutdown) (simp_all add: sink_inv_def)
    then show ?thesis using i True by (simp add: w sink_inv_def format_set_def)
  next
    case False
    then show ?thesis
      using i controlD [OF c] format_set_control [OF c]
      by (simp add: w sink_inv_def format_set_def)
  qed
qed

lemma reachable_inv: "reachable p s \<Longrightarrow> sink_inv s"
proof (induction rule: reachable.induct)
  case created
  show ?case by (simp add: sink_inv_def new_sink_def)
next
  case (called s c hr s')
  then show ?case using perform_inv by blast
next
  case (flushed s)
  then show ?case by (intro Flush_inv)
next
  case (shut_down s)
  then show ?case by (simp add: Shutdown_def sink_inv_def)
next
  case (worked s)
  then show ?case by (intro work_queue_step_inv)
qed

lemma reachable_descriptor_set:
  assumes "reachable p s" and "\<not> isShutdown s"
    and "state_index State_Ready \<le> state_index (state s)"
  shows "spCurrentType s \<noteq> None"
  using reachable_inv [OF assms(1)] assms(2,3)
  by (cases "state s"; cases "spCurrentType s") (auto simp: sink_inv_def format_set_def)

section \<open>Samples keep their order\<close>

lemma samples_of_append [simp]: "samples_of (a @ b) = samples_of a @ samples_of b"
  by (induction a rule: samples_of.induct) auto

lemma subseq_samples_of_suffix: "suffix a b \<Longrightarrow> subseq (samples_of a) (samples_of b)"
  by (auto simp: suffix_def)

lemma in_order_refl [simp]: "in_order a a"
  by (simp add: in_order_def)

lemma in_order_trans:
  assumes "in_order a b" and "in_order b c"
  shows "in_order a c"
proof -
  obtain ys1 where 1: "snd b = snd a @ ys1" "subseq (ys1 @ samples_of (fst b)) (samples_of (fst a))"
    "suffix (fst b) (fst a)"
    using assms(1) by (auto simp: in_order_def)
  obtain ys2 where 2: "snd c = snd b @ ys2" "subseq (ys2 @ samples_of (fst c)) (samples_of (fst b))"
    "suffix (fst c) (fst b)"
    using assms(2) by (auto simp: in_order_def)
  have "subseq (ys1 @ ys2 @ samples_of (fst c)) (ys1 @ samples_of (fst b))"
    using 2(2) by (simp add: subseq_append')
  then have "subseq ((ys1 @ ys2) @ samples_of (fst c)) (samples_of (fst a))"
    using 1(2) subseq_order.trans by fastforce
  moreover have "snd c = snd a @ (ys1 @ ys2)"
    using 1(1) 2(1) by simp
  moreover have "suffix (fst c) (fst a)"
    using 1(3) 2(3) suffix_order.trans by blast
  ultimately show ?thesis
    unfolding in_order_def by blast
qed

lemma in_order_pop_sample: "in_order (SampleItem smp # q, d) (q, d @ [smp])"
  by (simp add: in_order_def suffix_ConsI)

lemma in_order_pop_skip: "in_order (x # q, d) (q, d)"
  by (cases x) (auto simp: in_order_def suffix_ConsI intro: list_emb_Cons)

lemmas in_order_pop = in_order_pop_sample in_order_pop_skip

lemma traffic_upd [simp]:
  "traffic (s\<lparr>events := e\<rparr>) = traffic s"
  "traffic (s\<lparr>workQueue := w\<rparr>) = traffic s"
  "traffic (s\<lparr>state := st\<rparr>) = traffic s"
  "traffic (s\<lparr>startTime := t\<rparr>) = traffic s"
  "traffic (s\<lparr>fGetStartTimeFromSample := f\<rparr>) = traffic s"
  "traffic (s\<lparr>spCurrentType := c\<rparr>) = traffic s"
  "traffic (s\<lparr>guiCurrentSubtype := g\<rparr>) = traffic s"
  "traffic (s\<lparr>isShutdown := b\<rparr>) = traffic s"
  "traffic (s\<lparr>sampleQueue := q\<rparr>) = (q, delivered s)"
  "traffic (s\<lparr>delivered := d\<rparr>) = (sampleQueue s, d)"
  by (simp_all add: traffic_def)

lemma traffic_QueueEvent [simp]: "traffic (snd (QueueEvent p met hr s)) = traffic s"
  by (simp add: QueueEvent_def)

lemma traffic_HandleError [simp]: "traffic (HandleError p hr s) = traffic s"
  by (simp add: HandleError_def)

lemma traffic_QueueAsyncOperation [simp]: "traffic (snd (QueueAsyncOperation p op s)) = traffic s"
  by (simp add: QueueAsyncOperation_def)

lemma loop_unfold:
  fixes x :: queue_item and s :: sink and fFlush :: bool and p :: platform
  assumes "sampleQueue s = y # q"
  defines "s1 \<equiv> (case x of SampleItem smp \<Rightarrow> s\<lparr>delivered := delivered s @ [smp]\<rparr>
                        | MediaTypeItem mt \<Rightarrow> s)"
  defines "res \<equiv> (if state s = State_Started \<and> is_sample x \<and> \<not> fFlush \<and> \<not> isShutdown s
                   then QueueEvent p MEStreamSinkRequestSample S_OK s1 else (S_OK, s1))"
  shows "ProcessSamplesFromQueue_loop p fFlush x s =
           (if \<not> has_buffer x then (Inr False, s)
            else if FAILED (fst res) then (Inl (fst res), snd res)
            else ProcessSamplesFromQueue_loop p fFlush y (snd res\<lparr>sampleQueue := q\<rparr>))"
proof (cases x)
  case (SampleItem smp)
  then show ?thesis
    using assms(1) unfolding s1_def res_def
    by (subst ProcessSamplesFromQueue_loop.simps) (simp add: case_prod_unfold)
next
  case (MediaTypeItem mt)
  then show ?thesis
    using assms(1) unfolding s1_def res_def
    by (subst ProcessSamplesFromQueue_loop.simps) (simp add: case_prod_unfold)
qed

lemma loop_in_order:
  "sampleQueue s = q \<Longrightarrow>
   in_order (x # q, delivered s) (traffic (snd (ProcessSamplesFromQueue_loop p fFlush x s)))"
proof (induction q arbitrary: x s)
  case Nil
  then show ?case
    by (subst ProcessSamplesFromQueue_loop.simps)
       (cases x; simp add: case_prod_unfold traffic_def in_order_pop QueueEvent_def)
next
  case (Cons y q)
  define s1 where "s1 = (case x of SampleItem smp \<Rightarrow> s\<lparr>delivered := delivered s @ [smp]\<rparr>
                        | MediaTypeItem mt \<Rightarrow> s)"
  define res where "res = (if state s = State_Started \<and> is_sample x \<and> \<not> fFlush \<and> \<not> isShutdown s
                   then QueueEvent p MEStreamSinkRequestSample S_OK s1 else (S_OK, s1))"
  have u: "ProcessSamplesFromQueue_loop p fFlush x s =
           (if \<not> has_buffer x then (Inr False, s)
            else if FAILED (fst res) then (Inl (fst res), snd res)
            else ProcessSamplesFromQueue_loop p fFlush y (snd res\<lparr>sampleQueue := q\<rparr>))"
    unfolding res_def s1_def using Cons.prems by (rule loop_unfold)
  have t1: "traffic s1 = (y # q, delivered s1)"
    using Cons.prems by (cases x) (simp_all add: s1_def traffic_def)
  have t2: "traffic (snd res) = traffic s1"
    by (simp add: res_def)
  have o: "in_order (x # y # q, delivered s) (y # q, delivered s1)"
    by (cases x) (simp_all add: s1_def in_order_pop)
  show ?case
  proof (cases "has_buffer x")
    case False
    then show ?thesis using Cons.prems by (simp add: u traffic_def in_order_pop)
  next
    case True
    show ?thesis
    proof (cases "FAILED (fst res)")
      case f: True
      then show ?thesis using True o by (simp add: u t2 t1 del: FAILED_iff)
    next
      case f: False
      have q: "sampleQueue (snd res\<lparr>sampleQueue := q\<rparr>) = q"
        by simp
      have d: "delivered (snd res\<lparr>sampleQueue := q\<rparr>) = delivered s1"
        using t2 by (simp add: traffic_def)
      have "in_order (y # q, delivered s1)
              (traffic (snd (ProcessSamplesFromQueue_loop p fFlush y (snd res\<lparr>sampleQueue := q\<rparr>))))"
        using Cons.IH [OF q, of y] d by simp
      then show ?thesis
        using True f o in_order_trans by (simp add: u del: FAILED_iff)
    qed
  qed
qed

lemma ProcessSamplesFromQueue_in_order:
  "in_order (traffic s) (traffic (snd (ProcessSamplesFromQueue p fFlush s)))"
proof (cases "sampleQueue s")
  case Nil
  then show ?thesis by (simp add: ProcessSamplesFromQueue_def)
next
  case (Cons x q)
  have "in_order (x # q, delivered (s\<lparr>sampleQueue := q\<rparr>))
          (traffic (snd (ProcessSamplesFromQueue_loop p fFlush x (s\<lparr>sampleQueue := q\<rparr>))))"
    by (rule loop_in_order) simp
  then show ?thesis
    using Cons by (simp add: ProcessSamplesFromQueue_def traffic_def)
qed

lemma DropSamplesFromQueue_in_order:
  "in_order (traffic s) (traffic (snd (DropSamplesFromQueue p s)))"
  using ProcessSamplesFromQueue_in_order [of s p True]
  by (auto simp: DropSamplesFromQueue_def case_prod_unfold split: sum.splits)

lemma DispatchProcessSample_in_order:
  "in_order (traffic s) (traffic (snd (DispatchProcessSample p m_op s)))"
  using ProcessSamplesFromQueue_in_order [of s p False]
  by (auto simp: DispatchProcessSample_def SendSampleFromQueue_def case_prod_unfold
      split: sum.splits)

lemma OnDispatchWorkItem_body_in_order:
  "in_order (traffic s) (traffic (snd (OnDispatchWorkItem_body p op s)))"
proof (cases op)
  case OpStart
  then show ?thesis
    using DropSamplesFromQueue_in_order [of "snd (QueueEvent p MEStreamSinkStarted S_OK s)" p]
    by (auto simp: case_prod_unfold split: sum.splits)
next
  case OpRestart
  then show ?thesis
    using DropSamplesFromQueue_in_order [of "snd (QueueEvent p MEStreamSinkStarted S_OK s)" p]
    by (auto simp: case_prod_unfold split: sum.splits)
next
  case OpStop
  then show ?thesis
    using DropSamplesFromQueue_in_order [of s p]
    by (auto simp: case_prod_unfold split: sum.splits)
next
  case OpPause
  then show ?thesis by (simp add: case_prod_unfold)
next
  case OpProcessSample
  then show ?thesis using DispatchProcessSample_in_order by simp
next
  case OpSetMediaType
  then show ?thesis using DispatchProcessSample_in_order by simp
qed

lemma OnDispatchWorkItem_in_order:
  "in_order (traffic s) (traffic (snd (OnDispatchWorkItem p op s)))"
  using OnDispatchWorkItem_body_in_order [of s p op]
  by (auto simp: OnDispatchWorkItem_def case_prod_unfold split: sum.splits)

lemma work_queue_step_in_order:
  "in_order (traffic s) (traffic (work_queue_step p s))"
proof (cases "workQueue s")
  case Nil
  then show ?thesis by (simp add: work_queue_step_def)
next
  case (Cons op rest)
  then show ?thesis
    using OnDispatchWorkItem_in_order [of "s\<lparr>workQueue := rest\<rparr>" p op]
    by (simp add: work_queue_step_def)
qed

lemma Flush_in_order: "in_order (traffic s) (traffic (snd (Flush p s)))"
  using DropSamplesFromQueue_in_order [of s p]
  by (auto simp: Flush_def case_prod_unfold split: sum.splits)

lemma Shutdown_in_order: "in_order (traffic s) (traffic (snd (Shutdown s)))"
  by (simp add: Shutdown_def in_order_def traffic_def)

lemma perform_traffic:
  assumes "perform p c s = Some (hr, s')"
  shows "delivered s' = delivered s
       \<and> (sampleQueue s' = sampleQueue s
          \<or> (\<exists>mt. sampleQueue s' = sampleQueue s @ [MediaTypeItem mt])
          \<or> (\<exists>smp. c = CallPushSample (Some smp)
                \<and> sampleQueue s' = sampleQueue s @ [SampleItem smp]))"
proof (cases c)
  case (CallSetFormat x)
  then show ?thesis
    using assms
    by (auto simp: SetCurrentMediaType_def ProcessFormatChange_def QueueAsyncOperation_def
        ThrowIfError_def Let_def split: option.splits if_splits sum.splits)
next
  case (CallStart t)
  then show ?thesis
    using assms
    by (auto simp: Start_def QueueAsyncOperation_def split: option.splits if_splits)
next
  case CallRestart
  then show ?thesis
    using assms
    by (auto simp: Restart_def QueueAsyncOperation_def split: option.splits if_splits)
next
  case CallPause
  then show ?thesis
    using assms
    by (auto simp: Pause_def QueueAsyncOperation_def split: option.splits if_splits)
next
  case CallStop
  then show ?thesis
    using assms
    by (auto simp: Stop_def QueueAsyncOperation_def split: option.splits if_splits)
next
  case (CallPushSample x)
  then show ?thesis
    using assms
    by (auto simp: ProcessSample_def QueueAsyncOperation_def Let_def
        split: option.splits if_splits)
qed

lemma act_order:
  assumes "act p a s = Some s'"
  shows "\<exists>ys. delivered s' = delivered s @ ys
           \<and> subseq (ys @ samples_of (sampleQueue s'))
                (samples_of (sampleQueue s) @ pushed [a])"
proof (cases a)
  case (Call c)
  then obtain hr where h: "perform p c s = Some (hr, s')"
    using assms by (auto split: option.splits)
  note t = perform_traffic [OF h]
  then consider (same) "sampleQueue s' = sampleQueue s"
    | (marker) mt where "sampleQueue s' = sampleQueue s @ [MediaTypeItem mt]"
    | (sample) smp where "c = CallPushSample (Some smp)"
        "sampleQueue s' = sampleQueue s @ [SampleItem smp]"
    by blast
  then show ?thesis
  proof cases
    case same
    then show ?thesis using t by (simp add: subseq_rev_drop_many)
  next
    case marker
    then show ?thesis using t by (simp add: subseq_rev_drop_many)
  next
    case sample
    then show ?thesis using t Call by simp
  qed
next
  case Work
  then have "in_order (traffic s) (traffic s')"
    using assms work_queue_step_in_order by auto
  then show ?thesis using Work by (auto simp: in_order_def traffic_def)
next
  case DoFlush
  then have "in_order (traffic s) (traffic s')"
    using assms Flush_in_order by auto
  then show ?thesis using DoFlush by (auto simp: in_order_def traffic_def)
next
  case DoShutdown
  then have "in_order (traffic s) (traffic s')"
    using assms Shutdown_in_order by auto
  then show ?thesis using DoShutdown by (auto simp: in_order_def traffic_def)
qed

lemma pushed_Cons: "pushed (a # as) = pushed [a] @ pushed as"
  by (induction "a # as" rule: pushed.induct) auto

lemma pushed_append [simp]: "pushed (as @ bs) = pushed as @ pushed bs"
proof (induction as)
  case Nil
  show ?case by simp
next
  case (Cons a as)
  show ?case
    using Cons pushed_Cons [of a "as @ bs"] pushed_Cons [of a as] by simp
qed

lemma run_order:
  assumes "run p acts s = Some s'"
  shows "\<exists>ys. delivered s' = delivered s @ ys
           \<and> subseq (ys @ samples_of (sampleQueue s'))
                (samples_of (sampleQueue s) @ pushed acts)"
  using assms
proof (induction acts arbitrary: s)
  case Nil
  then show ?case by simp
next
  case (Cons a as)
  then obtain s1 where 1: "act p a s = Some s1" and 2: "run p as s1 = Some s'"
    by (auto split: option.splits)
  obtain ys1 where a: "delivered s1 = delivered s @ ys1"
    "subseq (ys1 @ samples_of (sampleQueue s1)) (samples_of (sampleQueue s) @ pushed [a])"
    using act_order [OF 1] by blast
  obtain ys2 where b: "delivered s' = delivered s1 @ ys2"
    "subseq (ys2 @ samples_of (sampleQueue s')) (samples_of (sampleQueue s1) @ pushed as)"
    using Cons.IH [OF 2] by blast
  have "subseq (ys1 @ ys2 @ samples_of (sampleQueue s'))
          (ys1 @ samples_of (sampleQueue s1) @ pushed as)"
    using b(2) by (simp add: subseq_append')
  moreover have "subseq ((ys1 @ samples_of (sampleQueue s1)) @ pushed as)
          ((samples_of (sampleQueue s) @ pushed [a]) @ pushed as)"
    using list_emb_append_mono [OF a(2), of "pushed as" "pushed as"] by simp
  ultimately have "subseq ((ys1 @ ys2) @ samples_of (sampleQueue s'))
          (samples_of (sampleQueue s) @ pushed (a # as))"
    using pushed_Cons [of a as] subseq_order.trans by fastforce
  then show ?case
    using a(1) b(1) by (intro exI [of _ "ys1 @ ys2"]) simp
qed

lemma run_append:
  "run p (as @ bs) s = (case run p as s of None \<Rightarrow> None | Some s1 \<Rightarrow> run p bs s1)"
  by (induction as arbitrary: s) (auto split: option.splits)

lemma act_keeps_format:
  assumes "act p a s = Some s'" and "keeps_format a"
  shows "spCurrentType s' = spCurrentType s"
proof (cases a)
  case (Call c)
  then obtain hr where h: "perform p c s = Some (hr, s')"
    using assms by (auto split: option.splits)
  show ?thesis
    using h assms(2) Call
    by (cases c)
       (auto simp: Start_def Restart_def Pause_def Stop_def ProcessSample_def
          QueueAsyncOperation_def Let_def split: option.splits if_splits)
next
  case Work
  have "control (work_queue_step p s) = control s \<or>
        (\<exists>op rest. workQueue s = op # rest \<and>
            control (work_queue_step p s) = control (s\<lparr>workQueue := rest\<rparr>))"
    using control_OnDispatchWorkItem
    by (cases "workQueue s") (simp_all add: work_queue_step_def)
  then show ?thesis
    using Work assms(1) by (auto simp: control_def)
next
  case DoFlush
  have "control (snd (Flush p s)) = control s"
    using control_DropSamplesFromQueue [of p s]
    by (auto simp: Flush_def case_prod_unfold split: sum.splits)
  then show ?thesis using DoFlush assms(1) by (auto simp: control_def)
next
  case DoShutdown
  then show ?thesis using assms(2) by simp
qed

lemma run_keeps_format:
  assumes "run p acts s = Some s'" and "list_all keeps_format acts"
  shows "spCurrentType s' = spCurrentType s"
  using assms
proof (induction acts arbitrary: s)
  case Nil
  then show ?case by simp
next
  case (Cons a as)
  then obtain s1 where 1: "act p a s = Some s1" and 2: "run p as s1 = Some s'"
    by (auto split: option.splits)
  show ?case
    using act_keeps_format [OF 1] Cons.IH [OF 2] Cons.prems(2) by simp
qed

lemma work_queue_step_pop:
  assumes "workQueue s = op # rest"
  shows "workQueue (work_queue_step p s) = rest" "state (work_queue_step p s) = state s"
    "isShutdown (work_queue_step p s) = isShutdown s"
  using assms control_OnDispatchWorkItem [of p op "s\<lparr>workQueue := rest\<rparr>"]
  by (simp_all add: work_queue_step_def control_def)

lemma pending_items_run:
  assumes "workQueue s = w @ rest"
  shows "workQueue ((work_queue_step p ^^ length w) s) = rest
       \<and> state ((work_queue_step p ^^ length w) s) = state s
       \<and> isShutdown ((work_queue_step p ^^ length w) s) = isShutdown s
       \<and> in_order (traffic s) (traffic ((work_queue_step p ^^ length w) s))"
  using assms
proof (induction w arbitrary: s)
  case Nil
  then show ?case by simp
next
  case (Cons op w)
  have 1: "workQueue (work_queue_step p s) = w @ rest"
    "state (work_queue_step p s) = state s"
    "isShutdown (work_queue_step p s) = isShutdown s"
    using work_queue_step_pop [of s op "w @ rest" p] Cons.prems by simp_all
  have 2: "(work_queue_step p ^^ length (op # w)) s
           = (work_queue_step p ^^ length w) (work_queue_step p s)"
    by (simp add: funpow_swap1)
  show ?case
    unfolding 2
    using Cons.IH [OF 1(1)] 1(2,3) work_queue_step_in_order [of s p] in_order_trans
    by auto
qed

lemma has_buffer_suffix:
  "suffix a b \<Longrightarrow> list_all has_buffer b \<Longrightarrow> list_all has_buffer a"
  by (auto simp: suffix_def)

section \<open>The operation matrix\<close>

text \<open>
  C1. For each of the five states and six operations, \<open>ValidateOperation\<close> returns
  \<open>S_OK\<close> exactly when the table of section 4.1 marks the pair valid; for an invalid
  pair it returns \<open>MF_E_NOT_INITIALIZED\<close> in state NotSet and \<open>MF_E_INVALIDREQUEST\<close>
  in any other state. (The function asserts that the sink is not shut down; the
  statement is about the calls that pass the assertion.)
\<close>

theorem ValidateOperation_matches_table:
  assumes "\<not> (assertions p \<and> isShutdown s)"
  shows "ValidateOperation p s op =
           Some (if spec_table (state s) op then S_OK
                 else if state s = State_TypeNotSet then MF_E_NOT_INITIALIZED
                 else MF_E_INVALIDREQUEST)
         \<and> (ValidateOperation p s op = Some S_OK) = spec_table (state s) op"
  using assms by (auto simp: ValidateOperation_def matrix_is_table)

theorem ValidateOperation_matches_table_witness:
  "\<not> (assertions debug_build \<and> isShutdown new_sink)
   \<and> ValidateOperation debug_build new_sink OpStart = Some MF_E_NOT_INITIALIZED
   \<and> ValidateOperation debug_build new_sink OpSetMediaType = Some S_OK
   \<and> ValidateOperation debug_build (streaming_sink State_Stopped []) OpPause
       = Some MF_E_INVALIDREQUEST"
  using ValidateOperation_matches_table [of debug_build new_sink OpStart]
    ValidateOperation_matches_table [of debug_build new_sink OpSetMediaType]
    ValidateOperation_matches_table [of debug_build "streaming_sink State_Stopped []" OpPause]
  by (simp add: debug_build_def new_sink_def streaming_sink_def)

section \<open>Flow control\<close>

text \<open>
  C2, as the code has it. A dispatch cycle (a work item carrying \<open>OpProcessSample\<close> or
  \<open>OpSetMediaType\<close>) run while the state is Started, on a sink that is not shut down,
  whose event queue accepts events and whose queued samples all hold a buffer, passes
  every queued sample to the callback in queue order, empties the queue, and queues one
  RequestSample event for each sample it delivered, plus one more when the work item
  carries \<open>OpProcessSample\<close>. A cycle scheduled by \<open>ProcessSample\<close> that delivers
  \<open>k\<close> samples therefore emits \<open>k + 1\<close> RequestSample events, not one.
\<close>

theorem dispatch_cycle_request_count:
  assumes "state s = State_Started" and "\<not> isShutdown s"
    and "SUCCEEDED (QueueEventParamVar_result p)"
    and "list_all has_buffer (sampleQueue s)"
    and "op = OpProcessSample \<or> op = OpSetMediaType"
  shows "OnDispatchWorkItem p op s =
           (S_OK,
            s\<lparr>sampleQueue := [],
              events := events s @ request_events
                 (length (samples_of (sampleQueue s)) + (if op = OpProcessSample then 1 else 0)),
              delivered := delivered s @ samples_of (sampleQueue s)\<rparr>)"
  using assms by (rule OnDispatchWorkItem_dispatch)

theorem dispatch_cycle_request_count_witness:
  "state (streaming_sink State_Started [SampleItem (frame 1), SampleItem (frame 2)]) = State_Started
   \<and> list_all has_buffer [SampleItem (frame 1), SampleItem (frame 2)]
   \<and> count_RequestSample (events (snd (OnDispatchWorkItem debug_build OpProcessSample
        (streaming_sink State_Started [SampleItem (frame 1), SampleItem (frame 2)])))) = 3
   \<and> delivered (snd (OnDispatchWorkItem debug_build OpProcessSample
        (streaming_sink State_Started [SampleItem (frame 1), SampleItem (frame 2)])))
       = [frame 1, frame 2]"
  using dispatch_cycle_request_count [of
      "streaming_sink State_Started [SampleItem (frame 1), SampleItem (frame 2)]"
      debug_build OpProcessSample]
  by (simp add: streaming_sink_def debug_build_def frame_def count_RequestSample_def
      request_events_def)

text \<open>
  The claim as written fails: one cycle that delivers the only queued sample in state
  Started queues two RequestSample events, one inside the loop and one in
  \<open>DispatchProcessSample\<close>.
\<close>

theorem dispatch_cycle_two_requests:
  "OnDispatchWorkItem debug_build OpProcessSample (streaming_sink State_Started [SampleItem (frame 1)])
     = (S_OK, (streaming_sink State_Started [])
          \<lparr>events := [Event MEStreamSinkRequestSample S_OK, Event MEStreamSinkRequestSample S_OK],
           delivered := [frame 1]\<rparr>)
   \<and> count_RequestSample [Event MEStreamSinkRequestSample S_OK, Event MEStreamSinkRequestSample S_OK] = 2"
  by (simp add: operation_defs example_defs count_RequestSample_def)

section \<open>Order of delivery and format changes\<close>




section \<open>Flush\<close>

text \<open>
  C4. \<open>Flush\<close> empties the queue, but \<open>ProcessSamplesFromQueue\<close> calls
  \<open>OnSample\<close> before it looks at \<open>fFlush\<close>: the two queued samples are both passed
  to the callback.
\<close>

theorem Flush_passes_samples_to_callback:
  "Flush debug_build (streaming_sink State_Paused [SampleItem (frame 1), SampleItem (frame 2)])
     = (S_OK, (streaming_sink State_Paused [])\<lparr>delivered := [frame 1, frame 2]\<rparr>)"
  by (simp add: operation_defs example_defs)

section \<open>Setting the media type\<close>

text \<open>
  C5, as the code has it. After a successful \<open>SetCurrentMediaType\<close> the given
  descriptor is the current type at once, in every state. From NotSet the state becomes
  Ready and nothing is queued; in Ready the state stays Ready and nothing is queued; in
  Started, Paused and Stopped the state is unchanged and the media type is appended to
  the sample queue.
\<close>

theorem SetCurrentMediaType_success:
  assumes "SetCurrentMediaType p (Some mt) s = Some (S_OK, s')"
  shows "spCurrentType s' = Some mt
       \<and> (if state s = State_TypeNotSet
          then state s' = State_Ready \<and> sampleQueue s' = sampleQueue s
          else state s' = state s
               \<and> (if state s = State_Ready
                  then sampleQueue s' = sampleQueue s
                  else sampleQueue s' = sampleQueue s @ [MediaTypeItem mt]))"
  using assms
  by (cases "state s")
     (auto simp: SetCurrentMediaType_def ProcessFormatChange_def QueueAsyncOperation_def
        ThrowIfError_def Let_def
        split: option.splits if_splits sum.splits prod.splits dest: not_S_OK)

theorem SetCurrentMediaType_success_witness:
  "SetCurrentMediaType debug_build (Some hd_type) new_sink
     = Some (S_OK, new_sink\<lparr>state := State_Ready, spCurrentType := Some hd_type,
                             guiCurrentSubtype := MFVideoFormat_NV12\<rparr>)
   \<and> state (new_sink\<lparr>state := State_Ready, spCurrentType := Some hd_type,
                             guiCurrentSubtype := MFVideoFormat_NV12\<rparr>) = State_Ready
   \<and> SetCurrentMediaType debug_build (Some hd_type) (streaming_sink State_Started [SampleItem (frame 1)])
     = Some (S_OK, (streaming_sink State_Started [SampleItem (frame 1), MediaTypeItem hd_type])
                     \<lparr>spCurrentType := Some hd_type, workQueue := [OpSetMediaType]\<rparr>)"
proof -
  have a: "SetCurrentMediaType debug_build (Some hd_type) new_sink
     = Some (S_OK, new_sink\<lparr>state := State_Ready, spCurrentType := Some hd_type,
                             guiCurrentSubtype := MFVideoFormat_NV12\<rparr>)"
    by (simp add: operation_defs example_defs)
  have b: "SetCurrentMediaType debug_build (Some hd_type) (streaming_sink State_Started [SampleItem (frame 1)])
     = Some (S_OK, (streaming_sink State_Started [SampleItem (frame 1), MediaTypeItem hd_type])
                     \<lparr>spCurrentType := Some hd_type, workQueue := [OpSetMediaType]\<rparr>)"
    by (simp add: operation_defs example_defs)
  show ?thesis
    using SetCurrentMediaType_success [OF a] SetCurrentMediaType_success [OF b] a b
    by (simp add: new_sink_def)
qed

text \<open>
  The claim as written fails: in state Started, with two samples still queued, the new
  descriptor replaces the current type when the call returns; queueing the media type
  does not defer it.
\<close>

theorem format_change_applied_at_once:
  "SetCurrentMediaType debug_build (Some hd_type)
     (streaming_sink State_Started [SampleItem (frame 1), SampleItem (frame 2)])
     = Some (S_OK, (streaming_sink State_Started
                      [SampleItem (frame 1), SampleItem (frame 2), MediaTypeItem hd_type])
                     \<lparr>spCurrentType := Some hd_type, workQueue := [OpSetMediaType]\<rparr>)
   \<and> spCurrentType ((streaming_sink State_Started
                      [SampleItem (frame 1), SampleItem (frame 2), MediaTypeItem hd_type])
                     \<lparr>spCurrentType := Some hd_type, workQueue := [OpSetMediaType]\<rparr>)
       = Some hd_type
   \<and> spCurrentType (streaming_sink State_Started [SampleItem (frame 1), SampleItem (frame 2)])
       \<noteq> Some hd_type"
  by (simp add: operation_defs example_defs)

section \<open>Stop\<close>




section \<open>Pushing samples\<close>




section \<open>Rejected operations\<close>

text \<open>
  C8, as the code has it. Whenever \<open>ValidateOperation\<close> rejects the operation of a
  public call (SetFormat, Start, Restart, Pause, Stop, PushSample), the call returns a
  failure and the whole sink is unchanged: state, queue, descriptor, and nothing put on
  the work queue. The returned code is the one of the validation, unless the sink is shut
  down or the sample pointer is null. Stop is no exception: its rejection leaves the state
  as it was.
\<close>

theorem rejected_operation_changes_nothing:
  assumes "ValidateOperation p s (call_op c) = Some hr" and "FAILED hr"
  shows "\<exists>hr'. FAILED hr' \<and> perform p c s = Some (hr', s)
           \<and> (if isShutdown s \<or> c = CallPushSample None then True else hr' = hr)"
proof (cases c)
  case (CallSetFormat pMediaType)
  have "ValidateOperation p s OpSetMediaType \<noteq> Some hr"
    using assms(2) by (cases "state s") (auto simp: ValidateOperation_def ValidStateMatrix_def)
  then show ?thesis using assms CallSetFormat by simp
next
  case (CallPushSample pSample)
  then show ?thesis
    using assms by (cases pSample) (auto simp: ProcessSample_def)
qed (use assms in \<open>auto simp: Start_def Restart_def Pause_def Stop_def\<close>)

theorem rejected_operation_changes_nothing_witness:
  "ValidateOperation debug_build new_sink (call_op CallStop) = Some MF_E_NOT_INITIALIZED
   \<and> FAILED MF_E_NOT_INITIALIZED
   \<and> perform debug_build CallStop new_sink = Some (MF_E_NOT_INITIALIZED, new_sink)
   \<and> perform debug_build (CallPushSample (Some (frame 1))) (streaming_sink State_Stopped [])
       = Some (MF_E_INVALIDREQUEST, streaming_sink State_Stopped [])"
proof -
  have a: "ValidateOperation debug_build new_sink (call_op CallStop) = Some MF_E_NOT_INITIALIZED"
    by (simp add: ValidateOperation_def ValidStateMatrix_def example_defs)
  have b: "ValidateOperation debug_build (streaming_sink State_Stopped [])
             (call_op (CallPushSample (Some (frame 1)))) = Some MF_E_INVALIDREQUEST"
    by (simp add: ValidateOperation_def ValidStateMatrix_def example_defs)
  have c: "\<not> isShutdown new_sink" "\<not> isShutdown (streaming_sink State_Stopped [])"
    by (simp_all add: example_defs)
  show ?thesis
    using rejected_operation_changes_nothing [OF a] rejected_operation_changes_nothing [OF b] a c
    by auto
qed

text \<open>
  The claim as written fails: Stop before any format is set is rejected with
  \<open>MF_E_NOT_INITIALIZED\<close>; the state stays NotSet, no work item is put, and no Stopped
  event is queued.
\<close>

theorem Stop_before_format_is_rejected:
  "Stop debug_build new_sink = Some (MF_E_NOT_INITIALIZED, new_sink)
   \<and> state new_sink = State_TypeNotSet
   \<and> work_queue_step debug_build new_sink = new_sink
   \<and> events new_sink = []"
  by (simp add: operation_defs example_defs)

section \<open>Shutdown\<close>

lemma refused_after_shutdown:
  assumes "isShutdown s"
  shows "ProcessSample p pSample s
           = Some (if pSample = None then E_INVALIDARG else MF_E_SHUTDOWN, s)
       \<and> SetCurrentMediaType p pMediaType s
           = Some (if pMediaType = None then E_INVALIDARG else MF_E_SHUTDOWN, s)
       \<and> IsMediaTypeSupported pMediaType s
           = (if pMediaType = None then E_INVALIDARG else MF_E_SHUTDOWN)
       \<and> Flush p s = (MF_E_SHUTDOWN, s)
       \<and> QueueEvent p met hrStatus s = (MF_E_SHUTDOWN, s)
       \<and> Shutdown s = (S_OK, s)
       \<and> isShutdown (snd (Shutdown s0))
       \<and> sampleQueue (snd (Shutdown s0)) = (if isShutdown s0 then sampleQueue s0 else [])
       \<and> (case perform p c s of None \<Rightarrow> True
           | Some (hr, s') \<Rightarrow> isShutdown s' \<and> sampleQueue s' = sampleQueue s)
       \<and> isShutdown (snd (OnDispatchWorkItem p op s))
       \<and> (if sampleQueue s = [] then OnDispatchWorkItem p op s = (S_OK, s) else True)"
proof -
  have a: "ProcessSample p x s = Some (if x = None then E_INVALIDARG else MF_E_SHUTDOWN, s)"
    for x
    using assms by (cases x) (simp_all add: ProcessSample_def)
  have b: "SetCurrentMediaType p x s
           = Some (if x = None then E_INVALIDARG else MF_E_SHUTDOWN, s)" for x
    using assms by (cases x) (simp_all add: SetCurrentMediaType_def)
  have c: "IsMediaTypeSupported pMediaType s
           = (if pMediaType = None then E_INVALIDARG else MF_E_SHUTDOWN)"
    using assms by (cases pMediaType) (simp_all add: IsMediaTypeSupported_def)
  have d: "Flush p s = (MF_E_SHUTDOWN, s)" "QueueEvent p met hrStatus s = (MF_E_SHUTDOWN, s)"
    "Shutdown s = (S_OK, s)"
    using assms by (simp_all add: Flush_def QueueEvent_def Shutdown_def)
  have e: "isShutdown (snd (Shutdown s0))"
    "sampleQueue (snd (Shutdown s0)) = (if isShutdown s0 then sampleQueue s0 else [])"
    by (simp_all add: Shutdown_def)
  have f: "(case perform p c s of None \<Rightarrow> True
           | Some (hr, s') \<Rightarrow> isShutdown s' \<and> sampleQueue s' = sampleQueue s)"
  proof (cases c)
    case (CallSetFormat x)
    then show ?thesis using assms b by simp
  next
    case (CallPushSample x)
    then show ?thesis using assms a by simp
  qed (use assms in \<open>auto simp: Start_def Restart_def Pause_def Stop_def
        QueueAsyncOperation_def split: option.splits\<close>)
  show ?thesis
    using a b c d e f assms
    by (simp add: OnDispatchWorkItem_keeps_flag OnDispatchWorkItem_after_shutdown)
qed

text \<open>
  C9. The stream sink's \<open>Start\<close>, \<open>Stop\<close>, \<open>Pause\<close> and \<open>Restart\<close> do not test the
  shutdown flag, which \<open>ValidateOperation\<close> asserts to be clear and every other entry
  point tests first. After \<open>RemoveStreamSink\<close> has shut the stream sink down, the media
  sink's \<open>OnClockStart\<close> still calls \<open>Start\<close> on it: without assertions the call
  returns \<open>S_OK\<close>, sets the state to Started and puts a work item, and the state is
  changed also when the unlocked work queue refuses the item; with assertions the
  program stops at the \<open>assert\<close>. \<open>ProcessSample\<close> on the same sink returns
  \<open>MF_E_SHUTDOWN\<close> and changes nothing.
\<close>

theorem Start_after_shutdown_not_refused:
  "perform debug_build (CallSetFormat (Some (video_type MFVideoFormat_NV12 (640, 480)))) new_sink
     = Some (S_OK, ready_sink)
   \<and> RemoveStreamSink 0 ready_media_sink
     = (S_OK, ready_media_sink\<lparr>spStreamSink := Some shut_down_sink\<rparr>)
   \<and> OnClockStart release_build 0 0 (ready_media_sink\<lparr>spStreamSink := Some shut_down_sink\<rparr>)
     = Some (S_OK, ready_media_sink
          \<lparr>spStreamSink := Some (shut_down_sink\<lparr>state := State_Started, workQueue := [OpStart]\<rparr>)\<rparr>)
   \<and> OnClockStart debug_build 0 0 (ready_media_sink\<lparr>spStreamSink := Some shut_down_sink\<rparr>)
     = None
   \<and> Shutdown ready_sink = (S_OK, shut_down_sink)
   \<and> Start release_build 0 shut_down_sink
       = Some (S_OK, shut_down_sink\<lparr>state := State_Started, workQueue := [OpStart]\<rparr>)
   \<and> Start (release_build\<lparr>MFPutWorkItem2_result := E_INVALIDARG\<rparr>) 0 shut_down_sink
       = Some (E_INVALIDARG, shut_down_sink\<lparr>state := State_Started\<rparr>)
   \<and> Start debug_build 0 shut_down_sink = None
   \<and> Stop release_build shut_down_sink
       = Some (S_OK, shut_down_sink\<lparr>state := State_Stopped, workQueue := [OpStop]\<rparr>)
   \<and> ProcessSample release_build (Some (frame 1)) shut_down_sink
       = Some (MF_E_SHUTDOWN, shut_down_sink)"
  by (simp add: operation_defs example_defs shut_down_sink_def more_example_defs
      RemoveStreamSink_def OnClockStart_def GetStreamId_def
      PRESENTATION_CURRENT_POSITION_def)

section \<open>Subtype of a new media type\<close>

lemma subtype_mismatch_rejected:
  assumes "spCurrentType s \<noteq> None" and "state_index State_Ready \<le> state_index (state s)"
    and "\<not> isShutdown s" and "subtype mt \<noteq> Some (guiCurrentSubtype s)"
  shows "IsMediaTypeSupported (Some mt) s
           = (case major_type mt of None \<Rightarrow> MF_E_ATTRIBUTENOTFOUND | Some g \<Rightarrow> MF_E_INVALIDTYPE)
       \<and> SetCurrentMediaType p (Some mt) s = Some (IsMediaTypeSupported (Some mt) s, s)
       \<and> (case SetCurrentMediaType p (Some mt') s of None \<Rightarrow> False
           | Some (hr, s') \<Rightarrow>
               guiCurrentSubtype s' = guiCurrentSubtype s
               \<and> (if SUCCEEDED hr then subtype mt' = Some (guiCurrentSubtype s) else True))"
proof -
  have a: "IsMediaTypeSupported (Some mt) s
           = (case major_type mt of None \<Rightarrow> MF_E_ATTRIBUTENOTFOUND | Some g \<Rightarrow> MF_E_INVALIDTYPE)"
    using assms by (auto simp: IsMediaTypeSupported_def split: option.splits)
  then have f: "FAILED (IsMediaTypeSupported (Some mt) s)"
    by (simp split: option.splits)
  have v: "ValidateOperation p s OpSetMediaType = Some S_OK"
    using assms(3) by (cases "state s") (simp_all add: ValidateOperation_eq)
  have b: "SetCurrentMediaType p (Some mt) s = Some (IsMediaTypeSupported (Some mt) s, s)"
    using assms f by (simp add: SetCurrentMediaType_def v)
  have c: "(case SetCurrentMediaType p (Some mt') s of None \<Rightarrow> False
           | Some (hr, s') \<Rightarrow>
               guiCurrentSubtype s' = guiCurrentSubtype s
               \<and> (if SUCCEEDED hr then subtype mt' = Some (guiCurrentSubtype s) else True))"
  proof (cases "SUCCEEDED (IsMediaTypeSupported (Some mt') s)")
    case False
    then show ?thesis using assms by (simp add: SetCurrentMediaType_def v)
  next
    case True
    then have st: "subtype mt' = Some (guiCurrentSubtype s)"
      using assms
      by (auto simp: IsMediaTypeSupported_def split: option.splits if_splits)
    show ?thesis
      using assms True st
      by (cases "state s")
         (auto simp: SetCurrentMediaType_def v ProcessFormatChange_def QueueAsyncOperation_def
            ThrowIfError_def Let_def split: option.splits prod.splits sum.splits)
  qed
  show ?thesis using a b c by simp
qed

text \<open>
  C10, as the code has it. On a sink that can arise, is not shut down and whose state is
  at least Ready, a descriptor whose subtype is not the current subtype is rejected by
  \<open>IsMediaTypeSupported\<close> and by \<open>SetCurrentMediaType\<close>, which leaves the sink
  unchanged. The error is \<open>MF_E_INVALIDTYPE\<close> when the major type of the descriptor can
  be read, and the failure of that read otherwise. Whatever descriptor is given,
  \<open>SetCurrentMediaType\<close> leaves the current subtype as it was, and succeeds only for a
  descriptor of that subtype.
\<close>

theorem subtype_change_rejected:
  assumes "reachable p s" and "state_index State_Ready \<le> state_index (state s)"
    and "\<not> isShutdown s" and "subtype mt \<noteq> Some (guiCurrentSubtype s)"
  shows "IsMediaTypeSupported (Some mt) s
           = (case major_type mt of None \<Rightarrow> MF_E_ATTRIBUTENOTFOUND | Some g \<Rightarrow> MF_E_INVALIDTYPE)
       \<and> SetCurrentMediaType p (Some mt) s = Some (IsMediaTypeSupported (Some mt) s, s)
       \<and> (case SetCurrentMediaType p (Some mt') s of None \<Rightarrow> False
           | Some (hr, s') \<Rightarrow>
               guiCurrentSubtype s' = guiCurrentSubtype s
               \<and> (if SUCCEEDED hr then subtype mt' = Some (guiCurrentSubtype s) else True))"
  using assms reachable_descriptor_set [OF assms(1,3,2)]
  by (intro subtype_mismatch_rejected) simp_all

theorem subtype_change_rejected_witness:
  "reachable debug_build ready_sink
   \<and> state_index State_Ready \<le> state_index (state ready_sink)
   \<and> \<not> isShutdown ready_sink
   \<and> subtype (video_type MFVideoFormat_YUY2 (640, 480)) \<noteq> Some (guiCurrentSubtype ready_sink)
   \<and> IsMediaTypeSupported (Some (video_type MFVideoFormat_YUY2 (640, 480))) ready_sink
       = MF_E_INVALIDTYPE
   \<and> SetCurrentMediaType debug_build (Some (video_type MFVideoFormat_YUY2 (640, 480))) ready_sink
       = Some (MF_E_INVALIDTYPE, ready_sink)"
proof -
  have "perform debug_build (CallSetFormat (Some (video_type MFVideoFormat_NV12 (640, 480))))
          new_sink = Some (S_OK, ready_sink)"
    by (simp add: operation_defs example_defs)
  then have r: "reachable debug_build ready_sink"
    using reachable.created reachable.called by blast
  have h: "state_index State_Ready \<le> state_index (state ready_sink)"
    "\<not> isShutdown ready_sink"
    "subtype (video_type MFVideoFormat_YUY2 (640, 480)) \<noteq> Some (guiCurrentSubtype ready_sink)"
    by (simp_all add: example_defs)
  show ?thesis
    using subtype_change_rejected [OF r h, of hd_type] r h
    by (simp add: video_type_def)
qed

text \<open>
  The claim as written fails on the error code: a descriptor of another subtype that
  has no major type attribute is rejected with the error of the failed read, not with
  \<open>MF_E_INVALIDTYPE\<close>.
\<close>

theorem missing_major_type_is_not_invalid_type:
  "perform debug_build (CallSetFormat (Some (video_type MFVideoFormat_NV12 (640, 480)))) new_sink
     = Some (S_OK, ready_sink)
   \<and> subtype untyped_yuy2 \<noteq> Some (guiCurrentSubtype ready_sink)
   \<and> IsMediaTypeSupported (Some untyped_yuy2) ready_sink = MF_E_ATTRIBUTENOTFOUND
   \<and> SetCurrentMediaType debug_build (Some untyped_yuy2) ready_sink
       = Some (MF_E_ATTRIBUTENOTFOUND, ready_sink)
   \<and> MF_E_ATTRIBUTENOTFOUND \<noteq> MF_E_INVALIDTYPE"
  by (simp add: operation_defs example_defs)

end
